theory Spec2Isabelle
  imports Complex_Main
begin

section \<open>Strings, Unicode and POSIX paths\<close>

text \<open>
  A Python \<open>str\<close> is a sequence of Unicode code points: \<open>len\<close>, slicing and the
  regular expressions of the scripts all count code points. A string is therefore a list
  of code points (natural numbers); \<open>ustr\<close> turns an ASCII literal into one.
\<close>

type_synonym uchar = nat
type_synonym ustring = "uchar list"

definition ustr :: "string \<Rightarrow> ustring" where
  "ustr s = map of_char s"

abbreviation (input) NL :: uchar where "NL \<equiv> 10"
abbreviation (input) HYPHEN :: uchar where "HYPHEN \<equiv> 45"
abbreviation (input) DOT :: uchar where "DOT \<equiv> 46"
abbreviation (input) SLASH :: uchar where "SLASH \<equiv> 47"
abbreviation (input) USCORE :: uchar where "USCORE \<equiv> 95"

text \<open>
  The scripts call into the Unicode tables of the Python runtime
  (\<open>unicodedata.normalize\<close>, the class \<open>\w\<close> of \<open>re\<close>, \<open>str.isdigit\<close>,
  \<open>str.strip\<close>, \<open>str.lower\<close>, matching under \<open>re.I\<close>). These tables are not part of
  the repository; the model takes them as a parameter.
\<close>

record unicode =
  nfkc :: "ustring \<Rightarrow> ustring"  \<comment> \<open>\<open>unicodedata.normalize('NFKC', s)\<close>\<close>
  isalnum :: "uchar \<Rightarrow> bool"  \<comment> \<open>\<open>\w\<close> is \<open>isalnum\<close> or the underscore\<close>
  isdigit :: "uchar \<Rightarrow> bool"  \<comment> \<open>one character of \<open>str.isdigit\<close>\<close>
  isspace :: "uchar \<Rightarrow> bool"  \<comment> \<open>what \<open>str.strip()\<close> removes\<close>
  lower :: "ustring \<Rightarrow> ustring"  \<comment> \<open>\<open>str.lower\<close>\<close>
  ieq :: "uchar \<Rightarrow> uchar \<Rightarrow> bool"
    \<comment> \<open>\<open>ieq U p c\<close>: the pattern letter \<open>p\<close> matches \<open>c\<close> under \<open>re.I\<close>\<close>

text \<open>
  The tables restricted to ASCII, where they are short enough to write down: NFKC leaves
  ASCII text alone, \<open>isalnum\<close> is letters and digits, the white space is
  \<open>\t \n \v \f \r\<close>, the four separators \<open>0x1C..0x1F\<close> and the blank. Outside ASCII
  this is not Python's table; it serves to run the model on ASCII inputs.
\<close>

definition ascii_upper :: "uchar \<Rightarrow> bool" where
  "ascii_upper c = (65 \<le> c \<and> c \<le> 90)"

definition ascii_lower_chr :: "uchar \<Rightarrow> uchar" where
  "ascii_lower_chr c = (if ascii_upper c then c + 32 else c)"

definition ascii_tables :: unicode where
  "ascii_tables = \<lparr>
     nfkc = (\<lambda>s. s),
     isalnum = (\<lambda>c. (48 \<le> c \<and> c \<le> 57) \<or> (65 \<le> c \<and> c \<le> 90) \<or> (97 \<le> c \<and> c \<le> 122)),
     isdigit = (\<lambda>c. 48 \<le> c \<and> c \<le> 57),
     isspace = (\<lambda>c. (9 \<le> c \<and> c \<le> 13) \<or> (28 \<le> c \<and> c \<le> 32)),
     lower = map ascii_lower_chr,
     ieq = (\<lambda>p c. ascii_lower_chr p = ascii_lower_chr c) \<rparr>"

text \<open>
  The same tables with NFKC as it acts on the fullwidth forms \<open>U+FF01..U+FF5E\<close>, which it
  maps to the ASCII characters \<open>U+0021..U+007E\<close>.
\<close>

definition fullwidth_tables :: unicode where
  "fullwidth_tables = ascii_tables
     \<lparr> nfkc := map (\<lambda>c. if 0xFF01 \<le> c \<and> c \<le> 0xFF5E then c - 0xFEE0 else c) \<rparr>"

subsection \<open>String methods\<close>

text \<open>\<open>s.strip(chars)\<close> and \<open>s.rstrip(chars)\<close> for a predicate on characters.\<close>

definition rstrip_chars :: "(uchar \<Rightarrow> bool) \<Rightarrow> ustring \<Rightarrow> ustring" where
  "rstrip_chars P s = rev (dropWhile P (rev s))"

definition strip_chars :: "(uchar \<Rightarrow> bool) \<Rightarrow> ustring \<Rightarrow> ustring" where
  "strip_chars P s = rstrip_chars P (dropWhile P s)"

text \<open>\<open>s.split(sep)\<close> for a one-character separator: always at least one piece.\<close>

fun split_on :: "uchar \<Rightarrow> ustring \<Rightarrow> ustring list" where
  "split_on sep [] = [[]]"
| "split_on sep (c # cs) =
     (if c = sep then [] # split_on sep cs
      else (case split_on sep cs of
              [] \<Rightarrow> [[c]]
            | p # ps \<Rightarrow> (c # p) # ps))"

text \<open>\<open>sep.join(parts)\<close>.\<close>

fun join_with :: "ustring \<Rightarrow> ustring list \<Rightarrow> ustring" where
  "join_with sep [] = []"
| "join_with sep [p] = p"
| "join_with sep (p # q # ps) = p @ sep @ join_with sep (q # ps)"

definition startswith :: "ustring \<Rightarrow> ustring \<Rightarrow> bool" where
  "startswith s pre = (take (length pre) s = pre)"

definition endswith :: "ustring \<Rightarrow> ustring \<Rightarrow> bool" where
  "endswith s suf = (length suf \<le> length s \<and> drop (length s - length suf) s = suf)"

text \<open>\<open>s.rfind(c)\<close>: the last index of \<open>c\<close>, or \<open>-1\<close>.\<close>

fun rfind :: "uchar \<Rightarrow> ustring \<Rightarrow> int" where
  "rfind c [] = -1"
| "rfind c (x # xs) =
     (let r = rfind c xs in
      if r \<ge> 0 then r + 1 else if x = c then 0 else -1)"

text \<open>\<open>str(n)\<close> for a natural number: its decimal digits.\<close>

fun str_nat :: "nat \<Rightarrow> ustring" where
  "str_nat n = (if n < 10 then [48 + n] else str_nat (n div 10) @ [48 + n mod 10])"

declare str_nat.simps [simp del]

subsection \<open>\<open>os.path\<close> on POSIX\<close>

text \<open>
  \<open>posixpath.join(a, b)\<close>, \<open>dirname\<close>, \<open>basename\<close> and \<open>splitext\<close>, as the standard
  library computes them on path strings.
\<close>

definition path_join :: "ustring \<Rightarrow> ustring \<Rightarrow> ustring" where
  "path_join a b =
     (if startswith b [SLASH] then b
      else if a = [] \<or> endswith a [SLASH] then a @ b
      else a @ [SLASH] @ b)"

definition basename :: "ustring \<Rightarrow> ustring" where
  "basename p = drop (nat (rfind SLASH p + 1)) p"

definition dirname :: "ustring \<Rightarrow> ustring" where
  "dirname p =
     (let head = take (nat (rfind SLASH p + 1)) p in
      if head \<noteq> [] \<and> head \<noteq> replicate (length head) SLASH
      then rstrip_chars (\<lambda>c. c = SLASH) head else head)"

text \<open>
  \<open>splitext\<close> splits at the last dot when that dot comes after the last slash and some
  character between the slash and the dot is no dot (leading dots do not start an
  extension).
\<close>

definition splitext :: "ustring \<Rightarrow> ustring \<times> ustring" where
  "splitext p =
     (let sepIndex = rfind SLASH p; dotIndex = rfind DOT p in
      if dotIndex > sepIndex
         \<and> list_ex (\<lambda>c. c \<noteq> DOT)
             (take (nat dotIndex - nat (sepIndex + 1)) (drop (nat (sepIndex + 1)) p))
      then (take (nat dotIndex) p, drop (nat dotIndex) p)
      else (p, []))"

section \<open>PDF\_batch\_rename: \<open>sanitize_filename\<close>\<close>

text \<open>
  \<open>re.sub(r'[^\w\u4e00-\u9fa5-]', '_', s)\<close>: a character is kept when it is a word
  character, lies in \<open>U+4E00..U+9FA5\<close> or is the hyphen, and becomes an underscore
  otherwise.
\<close>

definition keep_char :: "unicode \<Rightarrow> uchar \<Rightarrow> bool" where
  "keep_char U c =
     ((isalnum U c \<or> c = USCORE) \<or> (0x4E00 \<le> c \<and> c \<le> 0x9FA5) \<or> c = HYPHEN)"

definition replace_illegal :: "unicode \<Rightarrow> ustring \<Rightarrow> ustring" where
  "replace_illegal U s = map (\<lambda>c. if keep_char U c then c else USCORE) s"

text \<open>\<open>re.sub(r'_+', '_', s)\<close>: every run of underscores becomes one underscore.\<close>

fun collapse_us :: "ustring \<Rightarrow> ustring" where
  "collapse_us [] = []"
| "collapse_us [c] = [c]"
| "collapse_us (a # b # cs) =
     (if a = USCORE \<and> b = USCORE then collapse_us (b # cs)
      else a # collapse_us (b # cs))"

definition sanitize_filename :: "unicode \<Rightarrow> ustring \<Rightarrow> ustring" where
  "sanitize_filename U title =
     (let cleaned = nfkc U title;
          cleaned = replace_illegal U cleaned;
          cleaned = collapse_us cleaned
      in take 200 (strip_chars (\<lambda>c. c = USCORE) cleaned))"

text \<open>The value of \<open>cleaned.strip('_')\<close>, before the slice \<open>[:200]\<close> is taken.\<close>

definition before_cut :: "unicode \<Rightarrow> ustring \<Rightarrow> ustring" where
  "before_cut U title =
     strip_chars (\<lambda>c. c = USCORE) (collapse_us (replace_illegal U (nfkc U title)))"

text \<open>Shapes of strings used when reasoning about \<open>sanitize_filename\<close>.\<close>

fun no_double :: "ustring \<Rightarrow> bool" where
  "no_double [] = True"
| "no_double [c] = True"
| "no_double (a # b # cs) = (\<not> (a = USCORE \<and> b = USCORE) \<and> no_double (b # cs))"

definition clean_form :: "unicode \<Rightarrow> ustring \<Rightarrow> bool" where
  "clean_form U r = ((\<forall>c \<in> set r. keep_char U c) \<and> no_double r
     \<and> (r = [] \<or> hd r \<noteq> USCORE) \<and> length r \<le> 200)"

section \<open>The world the scripts run in\<close>

text \<open>
  Every \<open>except\<close> clause of the scripts distinguishes at most \<open>RequestException\<close>,
  \<open>KeyError\<close> and the rest of \<open>Exception\<close>; the model names the classes that the
  modelled operations raise.
\<close>

datatype exn = RequestException | KeyError | IndexError | TypeError | ValueError
  | OSError | RuntimeError

fun bind_exn :: "exn + 'a \<Rightarrow> ('a \<Rightarrow> exn + 'b) \<Rightarrow> exn + 'b" where
  "bind_exn (Inl e) f = Inl e"
| "bind_exn (Inr x) f = f x"

datatype outcome = Success | Failed | Skipped

record stats =
  success :: nat  \<comment> \<open>the key \<open>"success"\<close>, in the rename script \<open>"renamed"\<close>\<close>
  failed :: nat
  skipped :: nat

definition bump :: "outcome \<Rightarrow> stats \<Rightarrow> stats" where
  "bump r st = (case r of
       Success \<Rightarrow> st\<lparr>success := success st + 1\<rparr>
     | Failed \<Rightarrow> st\<lparr>failed := failed st + 1\<rparr>
     | Skipped \<Rightarrow> st\<lparr>skipped := skipped st + 1\<rparr>)"

text \<open>What a document yields to PyMuPDF: the plain text and the block dictionary of a page.\<close>

type_synonym span = "ustring \<times> rat"  \<comment> \<open>\<open>(span["text"], span["size"])\<close>\<close>

datatype block = TextBlock "span list list"  \<comment> \<open>\<open>b["lines"]\<close>, each line its spans\<close>
  | ImageBlock  \<comment> \<open>a block without \<open>"lines"\<close>\<close>

record page =
  get_text :: "exn + ustring"  \<comment> \<open>\<open>page.get_text()\<close>, \<open>page.get_text("text")\<close>\<close>
  get_text_dict :: "exn + block list"  \<comment> \<open>\<open>page.get_text("dict")["blocks"]\<close>\<close>

type_synonym document = "(exn + page) list"  \<comment> \<open>loading page \<open>i\<close> may raise\<close>

text \<open>JSON values as \<open>response.json()\<close> decodes them, with Python's truth value.\<close>

datatype json = JNull | JBool bool | JNum rat | JStr ustring | JArr "json list"
  | JObj "(ustring \<times> json) list"

fun truthy :: "json \<Rightarrow> bool" where
  "truthy JNull = False"
| "truthy (JBool b) = b"
| "truthy (JNum r) = (r \<noteq> 0)"
| "truthy (JStr s) = (s \<noteq> [])"
| "truthy (JArr xs) = (xs \<noteq> [])"
| "truthy (JObj kvs) = (kvs \<noteq> [])"

text \<open>\<open>v[key]\<close> for a string key and \<open>v[0]\<close>, with the exception Python raises.\<close>

fun getitem_key :: "ustring \<Rightarrow> json \<Rightarrow> exn + json" where
  "getitem_key k (JObj kvs) = (case map_of kvs k of None \<Rightarrow> Inl KeyError | Some v \<Rightarrow> Inr v)"
| "getitem_key k _ = Inl TypeError"

fun getitem_0 :: "json \<Rightarrow> exn + json" where
  "getitem_0 (JArr []) = Inl IndexError"
| "getitem_0 (JArr (x # xs)) = Inr x"
| "getitem_0 (JStr []) = Inl IndexError"
| "getitem_0 (JStr (c # cs)) = Inr (JStr [c])"
| "getitem_0 (JObj kvs) = Inl KeyError"  \<comment> \<open>the keys of a decoded object are strings\<close>
| "getitem_0 _ = Inl TypeError"

text \<open>\<open>result['choices'][0]['message']['content']\<close>.\<close>

definition reply_content :: "json \<Rightarrow> exn + json" where
  "reply_content result =
     bind_exn (bind_exn (bind_exn (getitem_key (ustr ''choices'') result) getitem_0)
                 (getitem_key (ustr ''message''))) (getitem_key (ustr ''content''))"

datatype http_result =
    TransportError  \<comment> \<open>\<open>requests.post\<close> raised: connection error, timeout (\<open>RequestException\<close>)\<close>
  | Response nat "exn + json"  \<comment> \<open>status code, and what \<open>response.json()\<close> gives or raises\<close>

text \<open>What the scripts print, one constructor for each \<open>print\<close> statement.\<close>

datatype msg =
    ParseFailed ustring exn  \<comment> \<open>parse failure of a PDF (both PDF scripts)\<close>
  | ApiFailed exn  \<comment> \<open>\<open>summarize_text\<close>, and the \<open>RequestException\<close> clause of \<open>call_llm_api\<close>\<close>
  | ApiFormatError exn  \<comment> \<open>the \<open>KeyError\<close> clause of \<open>call_llm_api\<close>\<close>
  | WriteFailed ustring exn
  | RenameFailed ustring exn
  | Found nat  \<comment> \<open>number of files found\<close>
  | Totals stats  \<comment> \<open>the final counts\<close>
  | DirMissing ustring | FixDirectoryHint | ApiKeyMissing
  | Start ustring | SkipFile ustring | ReadOk ustring | ReadFailed ustring exn
  | NoMarkdown | Generating | ReportSaved ustring | SaveFailed exn
  | AnalysisFailed | AnalysisDone

datatype event =
    Print msg
  | FitzOpen ustring  \<comment> \<open>\<open>fitz.open(path)\<close> was called\<close>
  | HttpPost ustring ustring  \<comment> \<open>\<open>requests.post(url, ...)\<close> with this prompt as the message\<close>

datatype node = File ustring | Dir

record world =
  fs :: "ustring \<Rightarrow> node option"  \<comment> \<open>what is at each path\<close>
  trace :: "event list"  \<comment> \<open>the effects so far, oldest first\<close>

text \<open>
  What the run cannot decide: the contents of the PDFs, the replies of the server, the
  faults of the file system, the traversal orders and the clock.
\<close>

record env =
  tables :: unicode
  fitz_open :: "ustring \<Rightarrow> exn + document"
  requests_post :: "ustring \<Rightarrow> ustring \<Rightarrow> http_result"  \<comment> \<open>by URL and prompt\<close>
  open_fault :: "ustring \<Rightarrow> exn option"  \<comment> \<open>\<open>open(path, 'w')\<close> raises\<close>
  write_fault :: "ustring \<Rightarrow> nat \<Rightarrow> exn option"  \<comment> \<open>the \<open>k\<close>-th \<open>f.write\<close> raises\<close>
  read_fault :: "ustring \<Rightarrow> exn option"  \<comment> \<open>opening or decoding for reading raises\<close>
  rename_fault :: "ustring \<Rightarrow> ustring \<Rightarrow> exn option"  \<comment> \<open>\<open>os.rename\<close> raises\<close>
  walk_order :: "ustring \<Rightarrow> (ustring \<times> ustring list) list"
    \<comment> \<open>\<open>(dirpath, filenames)\<close> in the order \<open>os.walk\<close> yields them\<close>
  glob_order :: "ustring \<Rightarrow> ustring list"  \<comment> \<open>the matches of a pattern\<close>
  now_stamp :: ustring  \<comment> \<open>\<open>datetime.now().strftime("%Y%m%d_%H%M%S")\<close>\<close>

definition emit :: "event \<Rightarrow> world \<Rightarrow> world" where
  "emit ev w = w\<lparr>trace := trace w @ [ev]\<rparr>"

definition exists :: "world \<Rightarrow> ustring \<Rightarrow> bool" where
  "exists w p = (fs w p \<noteq> None)"

definition isdir :: "world \<Rightarrow> ustring \<Rightarrow> bool" where
  "isdir w p = (fs w p = Some Dir)"

text \<open>
  \<open>os.walk(top)\<close> with the default \<open>onerror=None\<close>: when \<open>top\<close> cannot be listed (it
  does not exist, or is no directory) the error is dropped and nothing is yielded.
\<close>

definition os_walk :: "env \<Rightarrow> world \<Rightarrow> ustring \<Rightarrow> (ustring \<times> ustring list) list" where
  "os_walk E w top_dir = (if isdir w top_dir then walk_order E top_dir else [])"

text \<open>The file collection loop shared by both PDF scripts.\<close>

definition collect_pdfs :: "env \<Rightarrow> world \<Rightarrow> ustring \<Rightarrow> ustring list" where
  "collect_pdfs E w root_dir =
     concat (map (\<lambda>(dirpath, filenames).
        map (path_join dirpath)
          (filter (\<lambda>f. endswith (lower (tables E) f) (ustr ''.pdf'')) filenames))
        (os_walk E w root_dir))"

section \<open>PDF\_batch\_rename\<close>

subsection \<open>\<open>extract_pdf_title\<close>\<close>

text \<open>
  \<open>re.search(r'page|...|confidential', line, re.I)\<close>, the middle alternative being
  \<open>U+7B2C\<close>, then \<open>.*\<close>, then \<open>U+9875\<close>. A literal matches at the start of a text
  when each of its letters matches under \<open>re.I\<close>; \<open>.\<close> matches all but the newline.
\<close>

fun imatch_at :: "unicode \<Rightarrow> ustring \<Rightarrow> ustring \<Rightarrow> bool" where
  "imatch_at U [] t = True"
| "imatch_at U (p # ps) [] = False"
| "imatch_at U (p # ps) (c # cs) = (ieq U p c \<and> imatch_at U ps cs)"

fun icontains :: "unicode \<Rightarrow> ustring \<Rightarrow> ustring \<Rightarrow> bool" where
  "icontains U pat [] = imatch_at U pat []"
| "icontains U pat (c # cs) = (imatch_at U pat (c # cs) \<or> icontains U pat cs)"

text \<open>\<open>.*\<close> followed by the letter \<open>x\<close>, matched at the start of a text.\<close>

fun dotstar_then :: "unicode \<Rightarrow> uchar \<Rightarrow> ustring \<Rightarrow> bool" where
  "dotstar_then U x [] = False"
| "dotstar_then U x (c # cs) = (ieq U x c \<or> (c \<noteq> NL \<and> dotstar_then U x cs))"

fun nth_page_marker :: "unicode \<Rightarrow> ustring \<Rightarrow> bool" where
  "nth_page_marker U [] = False"
| "nth_page_marker U (c # cs) =
     ((ieq U 0x7B2C c \<and> dotstar_then U 0x9875 cs) \<or> nth_page_marker U cs)"

definition header_footer :: "unicode \<Rightarrow> ustring \<Rightarrow> bool" where
  "header_footer U line =
     (icontains U (ustr ''page'') line \<or> nth_page_marker U line
      \<or> icontains U (ustr ''confidential'') line)"

definition str_isdigit :: "unicode \<Rightarrow> ustring \<Rightarrow> bool" where
  "str_isdigit U s = (s \<noteq> [] \<and> list_all (isdigit U) s)"

text \<open>\<open>[ln.strip() for ln in text.split('\n') if ln.strip()]\<close>.\<close>

definition stripped_lines :: "unicode \<Rightarrow> ustring \<Rightarrow> ustring list" where
  "stripped_lines U text =
     map (strip_chars (isspace U))
       (filter (\<lambda>ln. strip_chars (isspace U) ln \<noteq> []) (split_on NL text))"

text \<open>The loop over \<open>lines[:10]\<close>, with its \<open>continue\<close> and its \<open>return line\<close>.\<close>

fun scan_lines :: "unicode \<Rightarrow> ustring list \<Rightarrow> ustring option" where
  "scan_lines U [] = None"
| "scan_lines U (line # rest) =
     (if 10 \<le> length line \<and> length line \<le> 200 \<and> \<not> str_isdigit U line
      then (if header_footer U line then scan_lines U rest else Some line)
      else scan_lines U rest)"

text \<open>The three nested loops that fill \<open>font_sizes\<close>.\<close>

fun block_spans :: "block \<Rightarrow> span list" where
  "block_spans (TextBlock lines) = concat lines"
| "block_spans ImageBlock = []"

definition font_sizes :: "block list \<Rightarrow> span list" where
  "font_sizes blocks = concat (map block_spans blocks)"

text \<open>\<open>max(xs, key=lambda x: x[1])\<close>: a later element wins only when strictly larger.\<close>

fun max_by_size :: "span \<Rightarrow> span list \<Rightarrow> span" where
  "max_by_size best [] = best"
| "max_by_size best (x # xs) = max_by_size (if snd x > snd best then x else best) xs"

text \<open>The body of the loop over the pages: \<open>Inr (Some t)\<close> is \<open>return t\<close>.\<close>

definition page_title :: "unicode \<Rightarrow> page \<Rightarrow> exn + ustring option" where
  "page_title U pg =
     (case get_text pg of
        Inl e \<Rightarrow> Inl e
      | Inr text \<Rightarrow>
         (case scan_lines U (take 10 (stripped_lines U text)) of
            Some line \<Rightarrow> Inr (Some line)
          | None \<Rightarrow>
             (case get_text_dict pg of
                Inl e \<Rightarrow> Inl e
              | Inr blocks \<Rightarrow>
                  (case font_sizes blocks of
                     [] \<Rightarrow> Inr None
                   | x # xs \<Rightarrow>
                       (let largest = max_by_size x xs in
                        if snd largest > 11 then Inr (Some (fst largest))
                        else Inr None)))))"

fun scan_pages :: "unicode \<Rightarrow> document \<Rightarrow> exn + ustring option" where
  "scan_pages U [] = Inr None"
| "scan_pages U (Inl e # rest) = Inl e"
| "scan_pages U (Inr pg # rest) =
     (case page_title U pg of
        Inl e \<Rightarrow> Inl e
      | Inr (Some t) \<Rightarrow> Inr (Some t)
      | Inr None \<Rightarrow> scan_pages U rest)"

text \<open>The \<open>try\<close> block: \<open>range(min(2, len(doc)))\<close> are the first two pages.\<close>

definition title_of_file :: "env \<Rightarrow> ustring \<Rightarrow> exn + ustring option" where
  "title_of_file E pdf_path =
     (case fitz_open E pdf_path of
        Inl e \<Rightarrow> Inl e
      | Inr doc \<Rightarrow> scan_pages (tables E) (take 2 doc))"

definition extract_pdf_title :: "env \<Rightarrow> world \<Rightarrow> ustring \<Rightarrow> ustring option \<times> world" where
  "extract_pdf_title E w pdf_path =
     (let w1 = emit (FitzOpen pdf_path) w in
      case title_of_file E pdf_path of
        Inl e \<Rightarrow> (None, emit (Print (ParseFailed pdf_path e)) w1)
      | Inr t \<Rightarrow> (t, w1))"

subsection \<open>\<open>rename_pdf_file\<close>\<close>

text \<open>The name tried with the counter at \<open>k\<close>: \<open>f"{new_name}_{k}.pdf"\<close> in \<open>dir_path\<close>.\<close>

definition numbered :: "ustring \<Rightarrow> ustring \<Rightarrow> nat \<Rightarrow> ustring" where
  "numbered dir_path new_name k =
     path_join dir_path (new_name @ [USCORE] @ str_nat k @ ustr ''.pdf'')"

text \<open>
  The \<open>while os.path.exists(new_path)\<close> loop. It need not end (nothing bounds the
  occupied names), so the result is an option: \<open>None\<close> is a loop that runs forever.
\<close>

partial_function (option) find_free ::
    "world \<Rightarrow> ustring \<Rightarrow> ustring \<Rightarrow> nat \<Rightarrow> ustring \<Rightarrow> ustring option" where
  "find_free w dir_path new_name counter new_path =
     (if exists w new_path
      then find_free w dir_path new_name (counter + 1) (numbered dir_path new_name counter)
      else Some new_path)"

declare find_free.simps [code]

text \<open>\<open>os.rename(src, dst)\<close> onto a free path.\<close>

definition os_rename :: "env \<Rightarrow> world \<Rightarrow> ustring \<Rightarrow> ustring \<Rightarrow> exn + world" where
  "os_rename E w src dst =
     (case fs w src of
        None \<Rightarrow> Inl OSError
      | Some n \<Rightarrow>
         (case rename_fault E src dst of
            Some e \<Rightarrow> Inl e
          | None \<Rightarrow> Inr (w\<lparr>fs := (fs w)(src := None, dst \<mapsto> n)\<rparr>)))"

definition rename_target :: "world \<Rightarrow> ustring \<Rightarrow> ustring \<Rightarrow> ustring option" where
  "rename_target w pdf_path new_name =
     (let dir_path = dirname pdf_path;
          new_path = path_join dir_path (new_name @ ustr ''.pdf'')
      in find_free w dir_path new_name 1 new_path)"

definition rename_pdf_file ::
    "env \<Rightarrow> world \<Rightarrow> ustring \<Rightarrow> ustring \<Rightarrow> (bool \<times> world) option" where
  "rename_pdf_file E w pdf_path new_name =
     (case rename_target w pdf_path new_name of
        None \<Rightarrow> None
      | Some new_path \<Rightarrow>
         (case os_rename E w pdf_path new_path of
            Inr w' \<Rightarrow> Some (True, w')
          | Inl e \<Rightarrow> Some (False, emit (Print (RenameFailed pdf_path e)) w)))"

subsection \<open>\<open>process_folder\<close>\<close>

text \<open>
  The body of the loop over \<open>pdf_files\<close>. Python's \<open>not title\<close> holds for \<open>None\<close> and
  for the empty string. The calls of the body raise nothing in this model (each catches
  its own exceptions), so the outer \<open>except\<close> clause of the loop has no branch here; the
  progress bar is left out.
\<close>

definition process_folder_step ::
    "env \<Rightarrow> world \<Rightarrow> ustring \<Rightarrow> (outcome \<times> world) option" where
  "process_folder_step E w pdf_path =
     (case extract_pdf_title E w pdf_path of
        (None, w1) \<Rightarrow> Some (Skipped, w1)
      | (Some title, w1) \<Rightarrow>
          if title = [] then Some (Skipped, w1)
          else let clean_title = sanitize_filename (tables E) title in
            if clean_title = [] then Some (Skipped, w1)
            else (case rename_pdf_file E w1 pdf_path clean_title of
                    None \<Rightarrow> None
                  | Some (True, w2) \<Rightarrow> Some (Success, w2)
                  | Some (False, w2) \<Rightarrow> Some (Failed, w2)))"

fun process_folder_loop ::
    "env \<Rightarrow> ustring list \<Rightarrow> stats \<times> world \<Rightarrow> (stats \<times> world) option" where
  "process_folder_loop E [] sw = Some sw"
| "process_folder_loop E (pdf_path # rest) (st, w) =
     (case process_folder_step E w pdf_path of
        None \<Rightarrow> None
      | Some (r, w') \<Rightarrow> process_folder_loop E rest (bump r st, w'))"

definition process_folder :: "env \<Rightarrow> world \<Rightarrow> ustring \<Rightarrow> (stats \<times> world) option" where
  "process_folder E w root_dir =
     (let pdf_files = collect_pdfs E w root_dir;
          w1 = emit (Print (Found (length pdf_files))) w
      in case process_folder_loop E pdf_files
                (\<lparr>success = 0, failed = 0, skipped = 0\<rparr>, w1) of
           None \<Rightarrow> None
         | Some (st, w2) \<Rightarrow> Some (st, emit (Print (Totals st)) w2))"

section \<open>PDF\_batch\_read\<close>

definition API_URL :: ustring where
  "API_URL = ustr ''https://api.siliconflow.cn/v1/chat/completions''"

subsection \<open>\<open>parse_pdf\<close>\<close>

text \<open>The loop \<open>for page in doc: full_text.append(page.get_text())\<close>.\<close>

fun page_texts :: "document \<Rightarrow> exn + ustring list" where
  "page_texts [] = Inr []"
| "page_texts (Inl e # rest) = Inl e"
| "page_texts (Inr pg # rest) =
     (case get_text pg of
        Inl e \<Rightarrow> Inl e
      | Inr t \<Rightarrow> (case page_texts rest of Inl e \<Rightarrow> Inl e | Inr ts \<Rightarrow> Inr (t # ts)))"

definition parse_pdf :: "env \<Rightarrow> world \<Rightarrow> ustring \<Rightarrow> ustring option \<times> world" where
  "parse_pdf E w pdf_path =
     (let w1 = emit (FitzOpen pdf_path) w in
      case bind_exn (fitz_open E pdf_path) page_texts of
        Inl e \<Rightarrow> (None, emit (Print (ParseFailed pdf_path e)) w1)
      | Inr full_text \<Rightarrow> (Some (join_with [NL] full_text), w1))"

subsection \<open>\<open>summarize_text\<close>\<close>

text \<open>The f-string up to \<open>{text[:65535]}\<close>, line by line.\<close>

definition PROMPT_HEAD :: ustring where
  "PROMPT_HEAD = join_with [NL]
     [[], [],
      ustr ''You are a helpful assistant. Context information is below.'',
      [],
      ustr ''Please tell me the title of the article, the institution(s) of authors, and the publish year of the article.'',
      [],
      ustr ''Then, using the provided context information, write a comprehensive summary of the artical. Use prior knowledge only if the given context didn't provide enough information. Espectially, notice the problem/difficulties that this work deals with, and how it solves the problems.'',
      [],
      ustr ''Reply in zh-CN. For key terms or specialized nouns, please provide the original term in parentheses.'',
      [],
      ustr ''Context: '',
      []]"

definition build_prompt :: "ustring \<Rightarrow> ustring" where
  "build_prompt text = PROMPT_HEAD @ take 65535 text"

text \<open>
  One \<open>requests.post\<close>, no look at the status, then the reply read out of the decoded
  body; \<open>except Exception\<close> turns every exception into \<open>None\<close> (here \<open>JNull\<close>).
\<close>

definition summarize_text :: "env \<Rightarrow> world \<Rightarrow> ustring \<Rightarrow> json \<times> world" where
  "summarize_text E w text =
     (let prompt = build_prompt text;
          w1 = emit (HttpPost API_URL prompt) w
      in case requests_post E API_URL prompt of
           TransportError \<Rightarrow> (JNull, emit (Print (ApiFailed RequestException)) w1)
         | Response status body \<Rightarrow>
             (case bind_exn body reply_content of
                Inl e \<Rightarrow> (JNull, emit (Print (ApiFailed e)) w1)
              | Inr content \<Rightarrow> (content, w1)))"

subsection \<open>Writing a text file\<close>

text \<open>
  \<open>open(path, 'w')\<close> creates the file or empties it; \<open>f.write(x)\<close> raises \<open>TypeError\<close>
  when \<open>x\<close> is no string and appends otherwise. What was written before an exception
  stays in the file when the \<open>with\<close> block closes it.
\<close>

definition open_w :: "env \<Rightarrow> world \<Rightarrow> ustring \<Rightarrow> exn + world" where
  "open_w E w p =
     (if fs w p = Some Dir then Inl OSError
      else case open_fault E p of
             Some e \<Rightarrow> Inl e
           | None \<Rightarrow> Inr (w\<lparr>fs := (fs w)(p \<mapsto> File [])\<rparr>))"

definition content_of :: "world \<Rightarrow> ustring \<Rightarrow> ustring" where
  "content_of w p = (case fs w p of Some (File c) \<Rightarrow> c | _ \<Rightarrow> [])"

definition f_write :: "env \<Rightarrow> ustring \<Rightarrow> nat \<Rightarrow> json \<Rightarrow> world \<Rightarrow> exn + world" where
  "f_write E p k v w =
     (case v of
        JStr s \<Rightarrow>
          (case write_fault E p k of
             Some e \<Rightarrow> Inl e
           | None \<Rightarrow> Inr (w\<lparr>fs := (fs w)(p \<mapsto> File (content_of w p @ s))\<rparr>))
      | _ \<Rightarrow> Inl TypeError)"

fun write_all :: "env \<Rightarrow> ustring \<Rightarrow> nat \<Rightarrow> json list \<Rightarrow> world \<Rightarrow> exn option \<times> world" where
  "write_all E p k [] w = (None, w)"
| "write_all E p k (v # vs) w =
     (case f_write E p k v w of
        Inl e \<Rightarrow> (Some e, w)
      | Inr w' \<Rightarrow> write_all E p (Suc k) vs w')"

text \<open>\<open>with open(path, 'w') as f:\<close> followed by one \<open>f.write\<close> for each value.\<close>

definition write_file :: "env \<Rightarrow> world \<Rightarrow> ustring \<Rightarrow> json list \<Rightarrow> exn option \<times> world" where
  "write_file E w p vs =
     (case open_w E w p of
        Inl e \<Rightarrow> (Some e, w)
      | Inr w1 \<Rightarrow> write_all E p 0 vs w1)"

subsection \<open>\<open>process_single_file\<close>\<close>

definition md_path_of :: "ustring \<Rightarrow> ustring" where
  "md_path_of pdf_path = fst (splitext pdf_path) @ ustr ''.md''"

text \<open>The two header lines; the first is \<open>#\<close>, a blank and four CJK characters.\<close>

definition summary_header :: "ustring \<Rightarrow> json list" where
  "summary_header pdf_path =
     [JStr [35, 32, 0x6587, 0x732E, 0x603B, 0x7ED3, NL, NL],
      JStr ([42, 42, 0x6E90, 0x6587, 0x4EF6, 42, 42, 58, 32, 96] @ basename pdf_path
            @ [96, NL, NL])]"

definition process_single_file :: "env \<Rightarrow> world \<Rightarrow> ustring \<Rightarrow> outcome \<times> world" where
  "process_single_file E w pdf_path =
     (let md_path = md_path_of pdf_path in
      if exists w md_path then (Skipped, w)
      else case parse_pdf E w pdf_path of
        (None, w1) \<Rightarrow> (Failed, w1)
      | (Some pdf_text, w1) \<Rightarrow>
          if pdf_text = [] then (Failed, w1)
          else case summarize_text E w1 pdf_text of (summary, w2) \<Rightarrow>
            if \<not> truthy summary then (Failed, w2)
            else case write_file E w2 md_path (summary_header pdf_path @ [summary]) of
                   (None, w3) \<Rightarrow> (Success, w3)
                 | (Some e, w3) \<Rightarrow> (Failed, emit (Print (WriteFailed md_path e)) w3))"

subsection \<open>\<open>batch_process_pdfs\<close>\<close>

fun batch_loop :: "env \<Rightarrow> ustring list \<Rightarrow> stats \<times> world \<Rightarrow> stats \<times> world" where
  "batch_loop E [] sw = sw"
| "batch_loop E (pdf_path # rest) (st, w) =
     (case process_single_file E w pdf_path of
        (r, w') \<Rightarrow> batch_loop E rest (bump r st, w'))"

definition batch_process_pdfs :: "env \<Rightarrow> world \<Rightarrow> ustring \<Rightarrow> stats \<times> world" where
  "batch_process_pdfs E w root_dir =
     (let pdf_files = collect_pdfs E w root_dir;
          w1 = emit (Print (Found (length pdf_files))) w
      in case batch_loop E pdf_files (\<lparr>success = 0, failed = 0, skipped = 0\<rparr>, w1) of
           (st, w2) \<Rightarrow> (st, emit (Print (Totals st)) w2))"

section \<open>MD\_summarize\<close>

record config =
  directory :: ustring  \<comment> \<open>\<open>MARKDOWN_DIRECTORY\<close>\<close>
  api_key :: ustring  \<comment> \<open>\<open>API_KEY\<close>\<close>
  api_base :: ustring  \<comment> \<open>\<open>API_BASE\<close>\<close>

text \<open>The values the script ships with, to be edited before a run.\<close>

definition shipped_config :: config where
  "shipped_config = \<lparr> directory = ustr ''/path/to/your/markdown'',
     api_key = ustr ''your-api-key'', api_base = ustr ''https://api.siliconflow.cn/v1'' \<rparr>"

record md_file =
  filename :: ustring
  content :: ustring
  path :: ustring

subsection \<open>\<open>read_markdown_files\<close>\<close>

definition read_file :: "env \<Rightarrow> world \<Rightarrow> ustring \<Rightarrow> exn + ustring" where
  "read_file E w p =
     (case read_fault E p of
        Some e \<Rightarrow> Inl e
      | None \<Rightarrow> (case fs w p of Some (File c) \<Rightarrow> Inr c | _ \<Rightarrow> Inl OSError))"

fun read_loop :: "env \<Rightarrow> ustring list \<Rightarrow> md_file list \<times> world \<Rightarrow> md_file list \<times> world" where
  "read_loop E [] mw = mw"
| "read_loop E (file_path # rest) (md_files, w) =
     (let fname = basename file_path in
      if startswith fname (ustr ''research_report'')
      then read_loop E rest (md_files, emit (Print (SkipFile file_path)) w)
      else case read_file E w file_path of
             Inr c \<Rightarrow> read_loop E rest
                (md_files @ [\<lparr>filename = fname, content = c, path = file_path\<rparr>],
                 emit (Print (ReadOk file_path)) w)
           | Inl e \<Rightarrow> read_loop E rest (md_files, emit (Print (ReadFailed file_path e)) w))"

definition read_markdown_files :: "env \<Rightarrow> world \<Rightarrow> ustring \<Rightarrow> md_file list \<times> world" where
  "read_markdown_files E w dir =
     read_loop E (glob_order E (path_join dir (ustr ''*.md''))) ([], w)"

subsection \<open>\<open>call_llm_api\<close>\<close>

text \<open>
  \<open>raise_for_status\<close> raises an \<open>HTTPError\<close> (a \<open>RequestException\<close>) for the codes 400
  to 599. Two \<open>except\<close> clauses follow: \<open>RequestException\<close> and \<open>KeyError\<close> give the
  empty string, every other exception leaves the function (\<open>Inl\<close>).
\<close>

definition call_llm_api ::
    "env \<Rightarrow> world \<Rightarrow> ustring \<Rightarrow> ustring \<Rightarrow> (exn + json) \<times> world" where
  "call_llm_api E w base prompt =
     (let url = base @ ustr ''/chat/completions'';
          w1 = emit (HttpPost url prompt) w;
          tried = (case requests_post E url prompt of
                     TransportError \<Rightarrow> Inl RequestException
                   | Response status body \<Rightarrow>
                       if 400 \<le> status \<and> status < 600 then Inl RequestException
                       else bind_exn body reply_content)
      in case tried of
           Inr v \<Rightarrow> (Inr v, w1)
         | Inl e \<Rightarrow>
             if e = RequestException then (Inr (JStr []), emit (Print (ApiFailed e)) w1)
             else if e = KeyError then (Inr (JStr []), emit (Print (ApiFormatError e)) w1)
             else (Inl e, w1))"

subsection \<open>\<open>analyze_papers\<close>\<close>

text \<open>The numbered heading of one paper, then its content and a newline.\<close>

fun papers_content :: "nat \<Rightarrow> md_file list \<Rightarrow> ustring" where
  "papers_content i [] = []"
| "papers_content i (file_info # rest) =
     [NL, 61, 61, 61, 32, 0x8BBA, 0x6587, 32] @ str_nat i @ [58, 32] @ filename file_info
       @ [32, 61, 61, 61, NL]
     @ content file_info @ [NL]
     @ papers_content (i + 1) rest"

definition REPORT_PROMPT_HEAD :: ustring where
  "REPORT_PROMPT_HEAD =
     [10, 32, 32, 32, 32, 32, 32, 32, 32, 0x4F60, 0x662F, 0x4E00, 0x4F4D, 0x4E13,
      0x4E1A, 0x7684, 0x7814, 0x7A76, 0x5206, 0x6790, 0x5E08, 0x3002, 0x8BF7, 0x5206,
      0x6790, 0x4EE5, 0x4E0B, 0x8BBA, 0x6587, 0x603B, 0x7ED3, 0x5185, 0x5BB9, 0xFF0C,
      0x751F, 0x6210, 0x4E00, 0x4EFD, 0x8BE5, 0x9009, 0x9898, 0x7684, 0x7814, 0x7A76,
      0x62A5, 0x544A, 0x3002, 10, 32, 32, 32, 32, 32, 32, 32, 32, 10, 32, 32, 32, 32,
      32, 32, 32, 32, 0x8BBA, 0x6587, 0x5185, 0x5BB9, 0xFF1A, 10, 32, 32, 32, 32, 32,
      32, 32, 32]"

definition REPORT_PROMPT_TAIL :: ustring where
  "REPORT_PROMPT_TAIL =
     [10, 32, 32, 32, 32, 32, 32, 32, 32, 10, 32, 32, 32, 32, 32, 32, 32, 32, 0x8BF7,
      0x786E, 0x4FDD, 0x62A5, 0x544A, 0x5185, 0x5BB9, 0x8BE6, 0x5B9E, 0x3001, 0x903B,
      0x8F91, 0x6E05, 0x6670, 0x3001, 0x5206, 0x6790, 0x6DF1, 0x5165, 0x3002, 0x4F7F,
      0x7528, 0x4E2D, 0x6587, 0x64B0, 0x5199, 0x3002, 10, 32, 32, 32, 32, 32, 32, 32,
      32, 0x5982, 0x679C, 0x6D89, 0x53CA, 0x5F15, 0x7528, 0xFF0C, 0x8BF7, 0x6807,
      0x660E, 0x5F15, 0x7528, 0x5185, 0x5BB9, 0x6765, 0x81EA, 0x54EA, 0x4E00, 0x7BC7,
      0x8BBA, 0x6587, 0x3002, 10, 32, 32, 32, 32, 32, 32, 32, 32]"

definition analyze_papers ::
    "env \<Rightarrow> world \<Rightarrow> ustring \<Rightarrow> md_file list \<Rightarrow> (exn + json) \<times> world" where
  "analyze_papers E w base md_files =
     (let prompt = REPORT_PROMPT_HEAD @ papers_content 1 md_files @ REPORT_PROMPT_TAIL
      in call_llm_api E (emit (Print Generating) w) base prompt)"

subsection \<open>\<open>save_report\<close> and \<open>main\<close>\<close>

definition save_report :: "env \<Rightarrow> world \<Rightarrow> json \<Rightarrow> ustring \<Rightarrow> world" where
  "save_report E w report output_path =
     (case write_file E w output_path [report] of
        (None, w1) \<Rightarrow> emit (Print (ReportSaved output_path)) w1
      | (Some e, w1) \<Rightarrow> emit (Print (SaveFailed e)) w1)"

fun appendix_lines :: "nat \<Rightarrow> md_file list \<Rightarrow> ustring" where
  "appendix_lines i [] = []"
| "appendix_lines i (file_info # rest) =
     [NL, 0x8BBA, 0x6587, 32] @ str_nat i @ [58, 32] @ filename file_info @ [NL]
     @ appendix_lines (i + 1) rest"

definition appendix :: "md_file list \<Rightarrow> ustring" where
  "appendix md_files =
     [10, 10, 45, 45, 45, 10, 10, 0x53C2, 0x8003, 0x8BBA, 0x6587, 0x5217, 0x8868,
      0xFF08, 0x7F16, 0x53F7, 0x4E0E, 0x6587, 0x4EF6, 0x540D, 0x5BF9, 0x5E94, 0xFF09,
      0xFF1A, 10] @ appendix_lines 1 md_files"

text \<open>
  \<open>report += appendix\<close> for a truthy \<open>report\<close>: a string is extended, a list takes the
  characters of the appendix as new elements, everything else raises \<open>TypeError\<close>.
\<close>

fun iadd_str :: "json \<Rightarrow> ustring \<Rightarrow> exn + json" where
  "iadd_str (JStr s) a = Inr (JStr (s @ a))"
| "iadd_str (JArr xs) a = Inr (JArr (xs @ map (\<lambda>c. JStr [c]) a))"
| "iadd_str _ a = Inl TypeError"

text \<open>
  \<open>main\<close> returns the exception that leaves it, if any. The analyzer's \<open>api_base\<close> is
  \<open>api_base or "https://api.siliconflow.cn/v1"\<close>.
\<close>

definition main :: "config \<Rightarrow> env \<Rightarrow> world \<Rightarrow> exn option \<times> world" where
  "main cfg E w =
     (if \<not> isdir w (directory cfg)
      then (None, emit (Print FixDirectoryHint) (emit (Print (DirMissing (directory cfg))) w))
      else if api_key cfg = ustr ''your-api-key-here''
      then (None, emit (Print ApiKeyMissing) w)
      else
        let output_path = path_join (directory cfg)
              (ustr ''research_report_'' @ now_stamp E @ ustr ''.md'');
            base = (if api_base cfg = [] then ustr ''https://api.siliconflow.cn/v1''
                    else api_base cfg);
            w1 = emit (Print (Start (directory cfg))) w
        in case read_markdown_files E w1 (directory cfg) of (md_files, w2) \<Rightarrow>
          if md_files = [] then (None, emit (Print NoMarkdown) w2)
          else case analyze_papers E (emit (Print (Found (length md_files))) w2)
                      base md_files of
              (Inl e, w3) \<Rightarrow> (Some e, w3)
            | (Inr report, w3) \<Rightarrow>
                if \<not> truthy report then (None, emit (Print AnalysisFailed) w3)
                else (case iadd_str report (appendix md_files) of
                        Inl e \<Rightarrow> (Some e, w3)
                      | Inr report' \<Rightarrow>
                          (None, emit (Print AnalysisDone)
                                   (save_report E w3 report' output_path))))"

section \<open>Names tried on a collision, and concrete worlds\<close>

text \<open>
  The names that \<open>rename_pdf_file\<close> tries, in order: \<open>new_name.pdf\<close> for \<open>k = 0\<close>, then
  \<open>new_name_k.pdf\<close> for the value \<open>k\<close> of the counter.
\<close>

definition candidate :: "ustring \<Rightarrow> ustring \<Rightarrow> nat \<Rightarrow> ustring" where
  "candidate dir_path new_name k =
     (if k = 0 then path_join dir_path (new_name @ ustr ''.pdf'')
      else numbered dir_path new_name k)"

text \<open>A directory where \<open>T.pdf\<close> and \<open>T_1.pdf\<close> are taken.\<close>

definition chain_world :: world where
  "chain_world = \<lparr> fs = [ustr ''/d'' \<mapsto> Dir, ustr ''/d/x.pdf'' \<mapsto> File [1],
       ustr ''/d/T.pdf'' \<mapsto> File [2], ustr ''/d/T_1.pdf'' \<mapsto> File [3]],
     trace = [] \<rparr>"

text \<open>
  An environment with the ASCII tables, the given documents, no fault of the file system,
  and a network that is down.
\<close>

definition quiet_env :: "(ustring \<Rightarrow> exn + document) \<Rightarrow> env" where
  "quiet_env docs = \<lparr> tables = ascii_tables, fitz_open = docs,
     requests_post = (\<lambda>url prompt. TransportError),
     open_fault = (\<lambda>p. None), write_fault = (\<lambda>p k. None), read_fault = (\<lambda>p. None),
     rename_fault = (\<lambda>src dst. None), walk_order = (\<lambda>d. []), glob_order = (\<lambda>p. []),
     now_stamp = ustr ''20240101_000000'' \<rparr>"

text \<open>A document of one page with the given text and no text block.\<close>

definition titled_doc :: "ustring \<Rightarrow> exn + document" where
  "titled_doc text = Inr [Inr \<lparr>get_text = Inr text, get_text_dict = Inr []\<rparr>]"

text \<open>
  A directory of two files that already carry the names of their titles, and an
  environment in which \<open>os.walk\<close> lists them.
\<close>

definition shelf_world :: world where
  "shelf_world = \<lparr> fs = [ustr ''/d'' \<mapsto> Dir,
       ustr ''/d/A_Study_of_Things.pdf'' \<mapsto> File [1],
       ustr ''/d/Notes_on_Renaming.pdf'' \<mapsto> File [2]], trace = [] \<rparr>"

definition shelf_env :: env where
  "shelf_env = (quiet_env (\<lambda>p. if p = ustr ''/d/A_Study_of_Things.pdf''
                              then titled_doc (ustr ''A Study of Things'')
                              else titled_doc (ustr ''Notes on Renaming'')))
     \<lparr> walk_order := (\<lambda>d. if d = ustr ''/d''
          then [(ustr ''/d'', [ustr ''A_Study_of_Things.pdf'', ustr ''Notes_on_Renaming.pdf''])]
          else []) \<rparr>"

text \<open>A reply of the chat API whose message has the given content.\<close>

definition chat_reply :: "json \<Rightarrow> json" where
  "chat_reply c =
     JObj [(ustr ''choices'', JArr [JObj [(ustr ''message'', JObj [(ustr ''content'', c)])]])]"

text \<open>
  An environment whose directory \<open>/d\<close> lists \<open>a.pdf\<close>, a document of one page, and
  whose server gives the reply \<open>r\<close>.
\<close>

definition paper_env :: "http_result \<Rightarrow> env" where
  "paper_env r = (quiet_env (\<lambda>p. titled_doc (ustr ''Some text'')))
     \<lparr> requests_post := (\<lambda>url prompt. r),
       walk_order := (\<lambda>d. if d = ustr ''/d'' then [(ustr ''/d'', [ustr ''a.pdf''])] else []) \<rparr>"

text \<open>The directory with \<open>a.pdf\<close>, without and with a summary written earlier.\<close>

definition paper_world :: world where
  "paper_world = \<lparr> fs = [ustr ''/d'' \<mapsto> Dir, ustr ''/d/a.pdf'' \<mapsto> File [1]], trace = [] \<rparr>"

definition summarized_world :: world where
  "summarized_world = \<lparr> fs = [ustr ''/d'' \<mapsto> Dir, ustr ''/d/a.pdf'' \<mapsto> File [1],
       ustr ''/d/a.md'' \<mapsto> File (ustr ''old'')], trace = [] \<rparr>"

text \<open>
  The same with a summary in the reply and a disk on which the third \<open>f.write\<close> to a
  file raises.
\<close>

definition full_disk_env :: env where
  "full_disk_env = (paper_env (Response 200 (Inr (chat_reply (JStr (ustr ''A summary''))))))
     \<lparr> write_fault := (\<lambda>p k. if k = 2 then Some OSError else None) \<rparr>"

text \<open>The same with an output file that cannot be opened for writing.\<close>

definition locked_env :: env where
  "locked_env = (paper_env (Response 200 (Inr (chat_reply (JStr (ustr ''A summary''))))))
     \<lparr> open_fault := (\<lambda>p. Some OSError) \<rparr>"

text \<open>A text one character longer than the budget of the prompt, and a PDF that holds it.\<close>

definition long_text :: ustring where
  "long_text = replicate 65536 97"

definition long_doc_env :: env where
  "long_doc_env = quiet_env (\<lambda>p. titled_doc long_text)"

text \<open>
  A directory \<open>/m\<close> with one summary, an environment in which \<open>glob\<close> finds it and the
  server gives the reply \<open>r\<close>, and a configuration with a key of one's own.
\<close>

definition report_world :: world where
  "report_world = \<lparr> fs = [ustr ''/m'' \<mapsto> Dir, ustr ''/m/p1.md'' \<mapsto> File (ustr ''A summary'')],
     trace = [] \<rparr>"

definition report_env :: "http_result \<Rightarrow> env" where
  "report_env r = (quiet_env (\<lambda>p. Inl RuntimeError))
     \<lparr> requests_post := (\<lambda>url prompt. r),
       glob_order := (\<lambda>pat. if pat = ustr ''/m/*.md'' then [ustr ''/m/p1.md''] else []) \<rparr>"

definition report_config :: config where
  "report_config = \<lparr> directory = ustr ''/m'', api_key = ustr ''sk-0123'',
     api_base = ustr ''https://api.siliconflow.cn/v1'' \<rparr>"

text \<open>The body \<open>{"choices": []}\<close>.\<close>

definition no_choices :: json where
  "no_choices = JObj [(ustr ''choices'', JArr [])]"

text \<open>The answer to a request with a key the server does not know.\<close>

definition rejected :: http_result where
  "rejected = Response 401 (Inr (JObj [(ustr ''message'', JStr (ustr ''Invalid token''))]))"

section \<open>Properties of \<open>sanitize_filename\<close>\<close>

lemma collapse_us_hd: "collapse_us (x # xs) \<noteq> [] \<and> hd (collapse_us (x # xs)) = x"
  by (induction xs arbitrary: x) auto

lemma no_double_collapse_us: "no_double (collapse_us s)"
proof (induction s rule: collapse_us.induct)
  case (3 a b cs)
  obtain ys where ys: "collapse_us (b # cs) = b # ys"
    using collapse_us_hd [of b cs] by (cases "collapse_us (b # cs)") auto
  with 3 show ?case by auto
qed simp_all

lemma collapse_us_id: "no_double s \<Longrightarrow> collapse_us s = s"
  by (induction s rule: collapse_us.induct) auto

lemma no_double_tl: "no_double (x # xs) \<Longrightarrow> no_double xs"
  by (cases xs) auto

lemma no_double_drop: "no_double s \<Longrightarrow> no_double (drop n s)"
proof (induction n arbitrary: s)
  case (Suc n)
  then show ?case by (cases s) (auto dest: no_double_tl)
qed simp

lemma no_double_take: "no_double s \<Longrightarrow> no_double (take n s)"
proof (induction s arbitrary: n rule: no_double.induct)
  case (3 a b cs)
  show ?case
  proof (cases n)
    case (Suc m)
    with 3(1) [of m] 3(2) show ?thesis by (cases m) auto
  qed simp
qed (auto simp: take_Cons')

lemma rstrip_chars_take: "rstrip_chars P s = take (length s - length (takeWhile P (rev s))) s"
  by (simp add: rstrip_chars_def dropWhile_eq_drop rev_drop)

lemma strip_chars_slice:
  "\<exists>m n. strip_chars P s = take m (drop n s)"
  unfolding strip_chars_def rstrip_chars_take dropWhile_eq_drop by blast

lemma strip_chars_hd: "strip_chars P s = [] \<or> \<not> P (hd (strip_chars P s))"
proof -
  let ?d = "dropWhile P s"
  have d: "?d = [] \<or> \<not> P (hd ?d)" by (metis hd_dropWhile)
  have "strip_chars P s = take (length ?d - length (takeWhile P (rev ?d))) ?d"
    by (simp add: strip_chars_def rstrip_chars_take)
  then obtain k where k: "strip_chars P s = take k ?d" by blast
  show ?thesis
  proof (cases "take k ?d = []")
    case False
    then have "hd (take k ?d) = hd ?d" by (cases k; cases ?d) auto
    with False d k show ?thesis by auto
  qed (simp add: k)
qed

lemma strip_chars_last: "strip_chars P s = [] \<or> \<not> P (last (strip_chars P s))"
proof -
  let ?r = "rev (dropWhile P s)"
  have "dropWhile P ?r = [] \<or> \<not> P (hd (dropWhile P ?r))" by (metis hd_dropWhile)
  then show ?thesis
    by (auto simp: strip_chars_def rstrip_chars_def last_rev)
qed

lemma strip_chars_id:
  "s = [] \<or> (\<not> P (hd s) \<and> \<not> P (last s)) \<Longrightarrow> strip_chars P s = s"
proof (cases "s = []")
  case False
  assume "s = [] \<or> (\<not> P (hd s) \<and> \<not> P (last s))"
  with False have h: "\<not> P (hd s)" and l: "\<not> P (last s)" by auto
  from h False have d: "dropWhile P s = s" by (cases s) auto
  from l False have "dropWhile P (rev s) = rev s" by (cases "rev s") (auto simp: last_rev hd_rev)
  with d show ?thesis by (simp add: strip_chars_def rstrip_chars_def)
qed (simp add: strip_chars_def rstrip_chars_def)

lemma replace_illegal_keep: "c \<in> set (replace_illegal U s) \<Longrightarrow> keep_char U c"
  by (auto simp: replace_illegal_def keep_char_def)

lemma replace_illegal_id: "\<forall>c \<in> set s. keep_char U c \<Longrightarrow> replace_illegal U s = s"
  by (simp add: replace_illegal_def map_idI)

lemma collapse_us_set: "set (collapse_us s) \<subseteq> set s"
  by (induction s rule: collapse_us.induct) auto

lemma sanitize_filename_clean_form: "clean_form U (sanitize_filename U s)"
proof -
  let ?c = "collapse_us (replace_illegal U (nfkc U s))"
  let ?t = "strip_chars (\<lambda>c. c = USCORE) ?c"
  have r: "sanitize_filename U s = take 200 ?t" by (simp add: sanitize_filename_def)
  obtain m n where mn: "?t = take m (drop n ?c)" using strip_chars_slice by blast
  have "set ?t \<subseteq> set ?c" unfolding mn by (meson set_take_subset set_drop_subset subset_trans)
  then have "set (take 200 ?t) \<subseteq> set (replace_illegal U (nfkc U s))"
    using collapse_us_set set_take_subset by fast
  then have k: "\<forall>c \<in> set (take 200 ?t). keep_char U c"
    using replace_illegal_keep by blast
  have nd: "no_double (take 200 ?t)" unfolding mn
    by (intro no_double_take no_double_drop no_double_collapse_us)
  have "?t = [] \<or> hd ?t \<noteq> USCORE" using strip_chars_hd [of "\<lambda>c. c = USCORE" ?c] by simp
  then have h: "take 200 ?t = [] \<or> hd (take 200 ?t) \<noteq> USCORE" by (cases ?t) auto
  show ?thesis unfolding r clean_form_def using k nd h by simp
qed

lemma sanitize_filename_on_clean:
  assumes "clean_form U r" "nfkc U r = r"
  shows "sanitize_filename U r = strip_chars (\<lambda>c. c = USCORE) r"
proof -
  have "collapse_us (replace_illegal U (nfkc U r)) = r"
    using assms by (simp add: clean_form_def replace_illegal_id collapse_us_id)
  moreover obtain m n where "strip_chars (\<lambda>c. c = USCORE) r = take m (drop n r)"
    using strip_chars_slice by blast
  then have "length (strip_chars (\<lambda>c. c = USCORE) r) \<le> length r"
    by simp
  then have "length (strip_chars (\<lambda>c. c = USCORE) r) \<le> 200"
    using assms(1) by (simp add: clean_form_def)
  ultimately show ?thesis by (simp add: sanitize_filename_def)
qed

lemma sanitize_filename_cut: "sanitize_filename U s = take 200 (before_cut U s)"
  by (simp add: sanitize_filename_def before_cut_def)

lemma no_double_last2:
  "no_double (xs @ [a, b]) \<Longrightarrow> \<not> (a = USCORE \<and> b = USCORE)"
proof (induction xs rule: no_double.induct)
  case (3 a' b' cs)
  then show ?case by simp
next
  case (2 c)
  then show ?case by simp
qed simp

lemma strip_chars_snoc:
  assumes "P x" and "xs \<noteq> []" and "\<not> P (hd xs)" and "\<not> P (last xs)"
  shows "strip_chars P (xs @ [x]) = xs"
proof -
  from assms(2,3) have d: "dropWhile P (xs @ [x]) = xs @ [x]" by (cases xs) auto
  from assms(2,4) have "dropWhile P (rev xs) = rev xs"
    by (cases "rev xs") (auto simp: hd_rev)
  with assms(1) d show ?thesis by (simp add: strip_chars_def rstrip_chars_def)
qed

text \<open>
  Claim C6, as amended. Let \<open>r\<close> be an output of \<open>sanitize_filename\<close> that NFKC
  normalization leaves unchanged (as it leaves every ASCII string). Sanitizing \<open>r\<close> again
  gives \<open>r\<close> exactly when \<open>r\<close> does not end with an underscore. And \<open>r\<close> ends with an
  underscore only when the stripped string is longer than 200 characters and its 200th
  character is an underscore, so that the cut falls right behind it; the second pass then
  returns \<open>r\<close> without this last character.
\<close>

theorem sanitize_filename_idempotent_iff:
  assumes "r = sanitize_filename U s" and "nfkc U r = r"
  shows "(sanitize_filename U r = r \<longleftrightarrow> (r = [] \<or> last r \<noteq> USCORE))
     \<and> (r \<noteq> [] \<and> last r = USCORE \<longrightarrow>
          200 < length (before_cut U s) \<and> before_cut U s ! 199 = USCORE
          \<and> length r = 200 \<and> sanitize_filename U r = butlast r)"
proof -
  have c: "clean_form U r" using assms(1) sanitize_filename_clean_form by simp
  then have e: "sanitize_filename U r = strip_chars (\<lambda>c. c = USCORE) r"
    using assms(2) by (rule sanitize_filename_on_clean)
  have iff: "sanitize_filename U r = r \<longleftrightarrow> (r = [] \<or> last r \<noteq> USCORE)"
  proof
    assume "sanitize_filename U r = r"
    with e have "strip_chars (\<lambda>c. c = USCORE) r = r" by simp
    then show "r = [] \<or> last r \<noteq> USCORE"
      using strip_chars_last [of "\<lambda>c. c = USCORE" r] by auto
  next
    assume "r = [] \<or> last r \<noteq> USCORE"
    with c have "r = [] \<or> (hd r \<noteq> USCORE \<and> last r \<noteq> USCORE)" by (auto simp: clean_form_def)
    then have "strip_chars (\<lambda>c. c = USCORE) r = r" by (intro strip_chars_id) simp
    with e show "sanitize_filename U r = r" by simp
  qed
  have cut: "200 < length (before_cut U s) \<and> before_cut U s ! 199 = USCORE
          \<and> length r = 200 \<and> sanitize_filename U r = butlast r"
    if ne: "r \<noteq> []" and l: "last r = USCORE"
  proof -
    let ?u = "before_cut U s"
    have r: "r = take 200 ?u" using assms(1) by (simp add: sanitize_filename_cut)
    have ul: "?u = [] \<or> last ?u \<noteq> USCORE"
      using strip_chars_last [of "\<lambda>c. c = USCORE"] by (simp add: before_cut_def)
    have long: "200 < length ?u"
    proof (rule ccontr)
      assume "\<not> 200 < length ?u"
      then have "r = ?u" using r by simp
      with ul ne l show False by simp
    qed
    then have len: "length r = 200" using r by simp
    have "last r = r ! 199" using ne len by (simp add: last_conv_nth)
    also have "\<dots> = ?u ! 199" using r by simp
    finally have at: "?u ! 199 = USCORE" using l by simp
    have h: "hd r \<noteq> USCORE" using c ne by (simp add: clean_form_def)
    have nd: "no_double r" using c by (simp add: clean_form_def)
    from ne obtain xs b where xb: "r = xs @ [b]" by (cases r rule: rev_cases) auto
    with len have "xs \<noteq> []" by auto
    then obtain ys a where ya: "xs = ys @ [a]" by (cases xs rule: rev_cases) auto
    from l xb have b: "b = USCORE" by simp
    from nd xb ya have "no_double (ys @ [a, b])" by simp
    from no_double_last2 [OF this] b have a: "a \<noteq> USCORE" by simp
    from h xb \<open>xs \<noteq> []\<close> have hx: "hd xs \<noteq> USCORE" by (cases xs) auto
    have "strip_chars (\<lambda>c. c = USCORE) (xs @ [b]) = xs"
      using b \<open>xs \<noteq> []\<close> hx a ya by (intro strip_chars_snoc) simp_all
    then have "strip_chars (\<lambda>c. c = USCORE) r = butlast r" using xb by simp
    with e long at len show ?thesis by simp
  qed
  from iff cut show ?thesis by blast
qed

text \<open>
  The amended claim at two titles. The first is \<open>U+FF21 U+FF42\<close> (fullwidth \<open>A\<close> and
  \<open>b\<close>) followed by \<open>:  x\<close>, whose sanitized form is \<open>Ab_x\<close>. The second is 199 letters
  \<open>a\<close>, an underscore and a \<open>b\<close>, where the cut falls behind the underscore.
\<close>

theorem sanitize_filename_idempotent_iff_witness:
  "(sanitize_filename fullwidth_tables
        (sanitize_filename fullwidth_tables ([0xFF21, 0xFF42] @ ustr '':  x''))
      = sanitize_filename fullwidth_tables ([0xFF21, 0xFF42] @ ustr '':  x'')
    \<and> sanitize_filename fullwidth_tables ([0xFF21, 0xFF42] @ ustr '':  x'') = ustr ''Ab_x'')
   \<and> (200 < length (before_cut ascii_tables (replicate 199 97 @ [USCORE, 98]))
    \<and> before_cut ascii_tables (replicate 199 97 @ [USCORE, 98]) ! 199 = USCORE
    \<and> length (sanitize_filename ascii_tables (replicate 199 97 @ [USCORE, 98])) = 200
    \<and> sanitize_filename ascii_tables
          (sanitize_filename ascii_tables (replicate 199 97 @ [USCORE, 98]))
        = butlast (sanitize_filename ascii_tables (replicate 199 97 @ [USCORE, 98])))"
proof -
  let ?r = "sanitize_filename fullwidth_tables ([0xFF21, 0xFF42] @ ustr '':  x'')"
  have v: "?r = ustr ''Ab_x''"
    by (simp add: sanitize_filename_def fullwidth_tables_def ascii_tables_def
        replace_illegal_def keep_char_def strip_chars_def rstrip_chars_def ustr_def)
  have n: "nfkc fullwidth_tables ?r = ?r"
    unfolding v by (simp add: fullwidth_tables_def ustr_def)
  have l: "?r = [] \<or> last ?r \<noteq> USCORE" unfolding v by (simp add: ustr_def)
  let ?q = "sanitize_filename ascii_tables (replicate 199 97 @ [USCORE, 98])"
  have vq: "?q = replicate 199 97 @ [USCORE]" by code_simp
  have nq: "nfkc ascii_tables ?q = ?q" by (simp add: ascii_tables_def)
  have lq: "?q \<noteq> [] \<and> last ?q = USCORE" unfolding vq by simp
  from sanitize_filename_idempotent_iff [OF refl n] l v
       sanitize_filename_idempotent_iff [OF refl nq] lq
  show ?thesis by blast
qed

text \<open>
  Claim C6 as stated fails. The title is 199 letters \<open>a\<close>, an underscore and a \<open>b\<close>: the
  cut to 200 characters leaves the underscore at the end, and a second pass strips it.
\<close>

theorem sanitize_filename_not_idempotent:
  "sanitize_filename ascii_tables
      (sanitize_filename ascii_tables (replicate 199 97 @ [USCORE, 98]))
     \<noteq> sanitize_filename ascii_tables (replicate 199 97 @ [USCORE, 98])"
  by code_simp

section \<open>Properties of \<open>rename_pdf_file\<close>\<close>

lemma find_free_free: "\<not> exists w p \<Longrightarrow> find_free w d T c p = Some p"
  by (subst find_free.simps) simp

lemma find_free_step:
  "exists w p \<Longrightarrow> find_free w d T c p = find_free w d T (c + 1) (numbered d T c)"
  by (subst find_free.simps) simp

lemma find_free_numbered:
  assumes "\<forall>j. c \<le> j \<and> j < k \<longrightarrow> exists w (numbered d T j)"
      and "\<not> exists w (numbered d T k)" and "c \<le> k"
  shows "find_free w d T (Suc c) (numbered d T c) = Some (numbered d T k)"
  using assms
proof (induction "k - c" arbitrary: c)
  case 0
  then have "c = k" by simp
  with 0 show ?case by (simp add: find_free_free)
next
  case (Suc m)
  then have lt: "c < k" by simp
  with Suc.prems have ex: "exists w (numbered d T c)" by simp
  have "find_free w d T (Suc (Suc c)) (numbered d T (Suc c)) = Some (numbered d T k)"
    using Suc.hyps(2) Suc.prems lt by (intro Suc.hyps(1)) auto
  with ex show ?case using find_free_step [of w "numbered d T c" d T "Suc c"] by simp
qed

lemma find_free_chain:
  assumes "\<forall>j < k. exists w (candidate d T j)" and "\<not> exists w (candidate d T k)"
  shows "find_free w d T 1 (candidate d T 0) = Some (candidate d T k)"
proof (cases k)
  case 0
  with assms(2) show ?thesis by (simp add: find_free_free)
next
  case (Suc m)
  with assms(1) have e0: "exists w (candidate d T 0)" by simp
  have "\<forall>j. 1 \<le> j \<and> j < k \<longrightarrow> exists w (numbered d T j)"
    using assms(1) by (auto simp: candidate_def)
  moreover have "\<not> exists w (numbered d T k)" using assms(2) Suc by (simp add: candidate_def)
  ultimately have "find_free w d T (Suc 1) (numbered d T 1) = Some (numbered d T k)"
    using Suc by (intro find_free_numbered) auto
  with e0 Suc show ?thesis
    using find_free_step [of w "candidate d T 0" d T 1] by (simp add: candidate_def)
qed

lemma rename_target_chain:
  assumes "\<forall>j < k. exists w (candidate (dirname p) T j)"
      and "\<not> exists w (candidate (dirname p) T k)"
  shows "rename_target w p T = Some (candidate (dirname p) T k)"
  using find_free_chain [OF assms] by (simp add: rename_target_def candidate_def)

text \<open>
  Claim C7. When the names \<open>T.pdf\<close>, \<open>T_1.pdf\<close>, ..., up to the one before the \<open>k\<close>-th
  candidate are all taken and the \<open>k\<close>-th candidate is free, for any \<open>k\<close>, the loop of
  \<open>rename_pdf_file\<close> ends and picks the \<open>k\<close>-th candidate, and the file (its content
  unchanged) is moved there; \<open>os.rename\<close> is assumed not to fail.
\<close>

theorem rename_picks_first_free:
  assumes "\<forall>j < k. exists w (candidate (dirname pdf_path) T j)"
      and "\<not> exists w (candidate (dirname pdf_path) T k)"
      and "fs w pdf_path = Some n"
      and "rename_fault E pdf_path (candidate (dirname pdf_path) T k) = None"
  shows "rename_target w pdf_path T = Some (candidate (dirname pdf_path) T k)
     \<and> rename_pdf_file E w pdf_path T
         = Some (True, w\<lparr>fs := (fs w)(pdf_path := None,
                                      candidate (dirname pdf_path) T k \<mapsto> n)\<rparr>)"
  using rename_target_chain [OF assms(1,2)] assms(3,4)
  by (simp add: rename_pdf_file_def os_rename_def)

text \<open>With \<open>T.pdf\<close> and \<open>T_1.pdf\<close> taken, \<open>x.pdf\<close> becomes \<open>T_2.pdf\<close>.\<close>

theorem rename_picks_first_free_witness:
  "rename_target chain_world (ustr ''/d/x.pdf'') (ustr ''T'') = Some (ustr ''/d/T_2.pdf'')
   \<and> rename_pdf_file (quiet_env (\<lambda>p. Inr [])) chain_world (ustr ''/d/x.pdf'') (ustr ''T'')
       = Some (True, chain_world\<lparr>fs := (fs chain_world)(ustr ''/d/x.pdf'' := None,
                                      ustr ''/d/T_2.pdf'' \<mapsto> File [1])\<rparr>)"
proof -
  let ?d = "dirname (ustr ''/d/x.pdf'')"
  have d: "?d = ustr ''/d''" by code_simp
  have c0: "candidate (ustr ''/d'') (ustr ''T'') 0 = ustr ''/d/T.pdf''" by code_simp
  have c1: "candidate (ustr ''/d'') (ustr ''T'') 1 = ustr ''/d/T_1.pdf''" by code_simp
  have c2: "candidate (ustr ''/d'') (ustr ''T'') 2 = ustr ''/d/T_2.pdf''" by code_simp
  have e0: "exists chain_world (ustr ''/d/T.pdf'')" by code_simp
  have e1: "exists chain_world (ustr ''/d/T_1.pdf'')" by code_simp
  have e2: "\<not> exists chain_world (ustr ''/d/T_2.pdf'')" by code_simp
  have a: "\<forall>j < 2. exists chain_world (candidate ?d (ustr ''T'') j)"
  proof (intro allI impI)
    fix j :: nat assume "j < 2"
    then have "j = 0 \<or> j = 1" by auto
    then show "exists chain_world (candidate ?d (ustr ''T'') j)"
      using e0 e1 c0 c1 d by auto
  qed
  have b: "\<not> exists chain_world (candidate ?d (ustr ''T'') 2)" using e2 c2 d by simp
  have f: "fs chain_world (ustr ''/d/x.pdf'') = Some (File [1])" by code_simp
  have r: "rename_fault (quiet_env (\<lambda>p. Inr [])) (ustr ''/d/x.pdf'')
             (candidate ?d (ustr ''T'') 2) = None"
    by (simp add: quiet_env_def)
  from rename_picks_first_free [OF a b f r] show ?thesis by (simp only: d c2)
qed


lemma process_folder_step_renamed:
  assumes "title_of_file E pdf_path = Inr (Some title)" and "title \<noteq> []"
      and "sanitize_filename (tables E) title = new_name" and "new_name \<noteq> []"
      and "rename_pdf_file E (emit (FitzOpen pdf_path) w) pdf_path new_name = Some (True, w')"
  shows "process_folder_step E w pdf_path = Some (Success, w')"
  using assms by (simp add: process_folder_step_def extract_pdf_title_def)

lemma fs_emit [simp]: "fs (emit ev w) = fs w"
  by (simp add: emit_def)

lemma exists_emit [simp]: "exists (emit ev w) p = exists w p"
  by (simp add: exists_def)

lemma path_join_append: "b \<noteq> [] \<Longrightarrow> path_join a (b @ s) = path_join a b @ s"
  by (cases b) (auto simp: path_join_def startswith_def)

lemma numbered_append:
  "n \<noteq> [] \<Longrightarrow> numbered d n k = path_join d n @ [USCORE] @ str_nat k @ ustr ''.pdf''"
  by (simp add: numbered_def path_join_append)

lemma rename_pdf_file_own:
  assumes "path_join (dirname p) (n @ ustr ''.pdf'') = p"
      and "fs w p = Some x"
      and "\<not> exists w (numbered (dirname p) n 1)"
      and "rename_fault E p (numbered (dirname p) n 1) = None"
  shows "rename_pdf_file E w p n
           = Some (True, w\<lparr>fs := (fs w)(p := None, numbered (dirname p) n 1 \<mapsto> x)\<rparr>)"
proof -
  let ?d = "dirname p"
  have c0: "candidate ?d n 0 = p" using assms(1) by (simp add: candidate_def)
  have c1: "candidate ?d n 1 = numbered ?d n 1" by (simp add: candidate_def)
  have "\<forall>j < 1. exists w (candidate ?d n j)" using c0 assms(2) by (simp add: exists_def)
  moreover have "\<not> exists w (candidate ?d n 1)" using c1 assms(3) by simp
  ultimately have "rename_target w p n = Some (numbered ?d n 1)"
    using rename_target_chain [of 1 w p n] c1 by simp
  with assms(2,4) show ?thesis by (simp add: rename_pdf_file_def os_rename_def)
qed

lemma process_folder_step_own:
  assumes "title_of_file E p = Inr (Some t)" and "t \<noteq> []"
      and "sanitize_filename (tables E) t = n" and "n \<noteq> []"
      and "path_join (dirname p) (n @ ustr ''.pdf'') = p"
      and "fs w p = Some x"
      and "fs w (numbered (dirname p) n 1) = None"
      and "rename_fault E p (numbered (dirname p) n 1) = None"
  shows "process_folder_step E w p
           = Some (Success, (emit (FitzOpen p) w)
                \<lparr>fs := (fs w)(p := None, numbered (dirname p) n 1 \<mapsto> x)\<rparr>)"
proof -
  let ?v = "emit (FitzOpen p) w"
  have "rename_pdf_file E ?v p n
          = Some (True, ?v\<lparr>fs := (fs ?v)(p := None, numbered (dirname p) n 1 \<mapsto> x)\<rparr>)"
    using assms(5-8) by (intro rename_pdf_file_own) (simp_all add: exists_def)
  from process_folder_step_renamed [OF assms(1-4) this] show ?thesis by simp
qed

lemma bump_success:
  "(bump Success st)\<lparr>success := success (bump Success st) + k\<rparr>
     = st\<lparr>success := success st + Suc k\<rparr>"
  by (simp add: bump_def)

lemma process_folder_loop_own:
  assumes "distinct files"
      and "\<forall>p \<in> set files. title_of_file E p = Inr (Some (T p)) \<and> T p \<noteq> []
             \<and> sanitize_filename (tables E) (T p) = N p \<and> N p \<noteq> []
             \<and> path_join (dirname p) (N p @ ustr ''.pdf'') = p
             \<and> rename_fault E p (numbered (dirname p) (N p) 1) = None"
      and "\<forall>p \<in> set files. fs w p \<noteq> None \<and> fs w (numbered (dirname p) (N p) 1) = None"
  shows "\<exists>w'. process_folder_loop E files (st, w)
              = Some (st\<lparr>success := success st + length files\<rparr>, w')
           \<and> trace w' = trace w @ map FitzOpen files
           \<and> (\<forall>p \<in> set files. fs w' p = None
                 \<and> fs w' (numbered (dirname p) (N p) 1) = fs w p)
           \<and> (\<forall>q. q \<notin> set files \<and> q \<notin> (\<lambda>p. numbered (dirname p) (N p) 1) ` set files
                 \<longrightarrow> fs w' q = fs w q)"
  using assms
proof (induction files arbitrary: st w)
  case Nil
  then show ?case by simp
next
  case (Cons p rest)
  let ?tgt = "\<lambda>p. numbered (dirname p) (N p) 1"
  from Cons.prems(3) obtain x where x: "fs w p = Some x" by auto
  define w1 where "w1 = (emit (FitzOpen p) w)\<lparr>fs := (fs w)(p := None, ?tgt p \<mapsto> x)\<rparr>"
  from Cons.prems(2,3) x have s1: "process_folder_step E w p = Some (Success, w1)"
    unfolding w1_def by (intro process_folder_step_own [of E p "T p"]) simp_all
  have f1: "fs w1 = (fs w)(p := None, ?tgt p \<mapsto> x)" by (simp add: w1_def)
  have t1: "trace w1 = trace w @ [FitzOpen p]" by (simp add: w1_def emit_def)
  have inj: "?tgt q \<noteq> ?tgt p" if "q \<in> set rest" for q
  proof
    assume eq: "?tgt q = ?tgt p"
    from that Cons.prems(2) have q: "N q \<noteq> []" "path_join (dirname q) (N q @ ustr ''.pdf'') = q"
      by auto
    from Cons.prems(2) have p: "N p \<noteq> []" "path_join (dirname p) (N p @ ustr ''.pdf'') = p"
      by auto
    from eq q(1) p(1) have "path_join (dirname q) (N q) = path_join (dirname p) (N p)"
      by (simp add: numbered_append)
    then have "q = p" using q p by (metis path_join_append)
    with that Cons.prems(1) show False by simp
  qed
  have keep: "fs w1 q = fs w q \<and> fs w1 (?tgt q) = None" if "q \<in> set rest" for q
  proof -
    from that Cons.prems(1) have "q \<noteq> p" by auto
    moreover from that Cons.prems(3) have "fs w q \<noteq> None" "fs w (?tgt q) = None" by auto
    moreover from Cons.prems(3) have "fs w (?tgt p) = None" "fs w p \<noteq> None" by auto
    ultimately show ?thesis using f1 inj [OF that] by auto
  qed
  have "\<exists>w'. process_folder_loop E rest (bump Success st, w1)
              = Some ((bump Success st)\<lparr>success := success (bump Success st) + length rest\<rparr>, w')
           \<and> trace w' = trace w1 @ map FitzOpen rest
           \<and> (\<forall>p \<in> set rest. fs w' p = None \<and> fs w' (?tgt p) = fs w1 p)
           \<and> (\<forall>q. q \<notin> set rest \<and> q \<notin> ?tgt ` set rest \<longrightarrow> fs w' q = fs w1 q)"
    using Cons.prems keep by (intro Cons.IH) auto
  then obtain w' where
        l: "process_folder_loop E rest (bump Success st, w1)
              = Some (st\<lparr>success := success st + Suc (length rest)\<rparr>, w')"
    and t: "trace w' = trace w1 @ map FitzOpen rest"
    and m: "\<forall>p \<in> set rest. fs w' p = None \<and> fs w' (?tgt p) = fs w1 p"
    and k: "\<forall>q. q \<notin> set rest \<and> q \<notin> ?tgt ` set rest \<longrightarrow> fs w' q = fs w1 q"
    unfolding bump_success by blast
  have pr: "p \<notin> set rest" using Cons.prems(1) by simp
  have pt: "p \<notin> ?tgt ` set rest" using keep Cons.prems(3) by force
  have tr: "?tgt p \<notin> set rest" using Cons.prems(3) by force
  have tt: "?tgt p \<notin> ?tgt ` set rest" using inj by force
  have tp: "?tgt p \<noteq> p" using Cons.prems(3) by force
  have a: "fs w' p = None" using k pr pt f1 tp by simp
  have b: "fs w' (?tgt p) = fs w p" using k tr tt f1 x by simp
  have c: "\<forall>q \<in> set rest. fs w' q = None \<and> fs w' (?tgt q) = fs w q" using m keep by simp
  have d: "\<forall>q. q \<notin> set (p # rest) \<and> q \<notin> ?tgt ` set (p # rest) \<longrightarrow> fs w' q = fs w q"
    using k f1 by simp
  from s1 l have "process_folder_loop E (p # rest) (st, w)
      = Some (st\<lparr>success := success st + length (p # rest)\<rparr>, w')" by simp
  moreover have "trace w' = trace w @ map FitzOpen (p # rest)" using t t1 by simp
  ultimately show ?case using a b c d by auto
qed


text \<open>
  Claim C9. When the file is named \<open>new_name\<close> followed by the lower-case extension
  \<open>.pdf\<close>, so that \<open>new_name.pdf\<close> in its directory is the path the file already has,
  and \<open>new_name_1.pdf\<close> is free, \<open>rename_pdf_file\<close> moves the file to \<open>new_name_1.pdf\<close>.
  Consequently a run of \<open>process_folder\<close> over a directory in which every file is
  already named after the sanitized form of its title renames every one of them again:
  all are counted as renamed, none of the old paths is left, and each content is found
  under the name with the suffix \<open>_1\<close>. (A file \<open>T.PDF\<close> is taken by the batch too, but
  there the first candidate \<open>T.pdf\<close> is another path; the statement is about the
  extension \<open>.pdf\<close> as written.)
\<close>

theorem rename_to_own_name:
  "(path_join (dirname pdf_path) (new_name @ ustr ''.pdf'') = pdf_path
      \<and> fs w pdf_path = Some n
      \<and> \<not> exists w (numbered (dirname pdf_path) new_name 1)
      \<and> rename_fault E pdf_path (numbered (dirname pdf_path) new_name 1) = None
    \<longrightarrow> rename_pdf_file E w pdf_path new_name
          = Some (True, w\<lparr>fs := (fs w)(pdf_path := None,
                                       numbered (dirname pdf_path) new_name 1 \<mapsto> n)\<rparr>))
   \<and> (collect_pdfs E w root_dir = files \<and> distinct files
      \<and> (\<forall>p \<in> set files.
            title_of_file E p = Inr (Some (T p)) \<and> T p \<noteq> []
            \<and> sanitize_filename (tables E) (T p) = N p \<and> N p \<noteq> []
            \<and> path_join (dirname p) (N p @ ustr ''.pdf'') = p
            \<and> fs w p \<noteq> None
            \<and> \<not> exists w (numbered (dirname p) (N p) 1)
            \<and> rename_fault E p (numbered (dirname p) (N p) 1) = None)
    \<longrightarrow> (\<exists>w'. process_folder E w root_dir
                 = Some (\<lparr>success = length files, failed = 0, skipped = 0\<rparr>, w')
            \<and> (\<forall>p \<in> set files. fs w' p = None
                  \<and> fs w' (numbered (dirname p) (N p) 1) = fs w p)))"
proof (intro conjI impI)
  assume "path_join (dirname pdf_path) (new_name @ ustr ''.pdf'') = pdf_path
      \<and> fs w pdf_path = Some n
      \<and> \<not> exists w (numbered (dirname pdf_path) new_name 1)
      \<and> rename_fault E pdf_path (numbered (dirname pdf_path) new_name 1) = None"
  then show "rename_pdf_file E w pdf_path new_name
          = Some (True, w\<lparr>fs := (fs w)(pdf_path := None,
                                       numbered (dirname pdf_path) new_name 1 \<mapsto> n)\<rparr>)"
    by (intro rename_pdf_file_own) simp_all
next
  assume h: "collect_pdfs E w root_dir = files \<and> distinct files
      \<and> (\<forall>p \<in> set files.
            title_of_file E p = Inr (Some (T p)) \<and> T p \<noteq> []
            \<and> sanitize_filename (tables E) (T p) = N p \<and> N p \<noteq> []
            \<and> path_join (dirname p) (N p @ ustr ''.pdf'') = p
            \<and> fs w p \<noteq> None
            \<and> \<not> exists w (numbered (dirname p) (N p) 1)
            \<and> rename_fault E p (numbered (dirname p) (N p) 1) = None)"
  let ?w1 = "emit (Print (Found (length files))) w"
  let ?st = "\<lparr>success = 0, failed = 0, skipped = 0\<rparr>"
  from h have d: "distinct files" by simp
  from h have a: "\<forall>p \<in> set files. title_of_file E p = Inr (Some (T p)) \<and> T p \<noteq> []
             \<and> sanitize_filename (tables E) (T p) = N p \<and> N p \<noteq> []
             \<and> path_join (dirname p) (N p @ ustr ''.pdf'') = p
             \<and> rename_fault E p (numbered (dirname p) (N p) 1) = None" by simp
  from h have b: "\<forall>p \<in> set files. fs ?w1 p \<noteq> None
             \<and> fs ?w1 (numbered (dirname p) (N p) 1) = None"
    by (simp add: exists_def emit_def)
  from process_folder_loop_own [OF d a b, of ?st] obtain w2 where
        l: "process_folder_loop E files (?st, ?w1)
              = Some (?st\<lparr>success := success ?st + length files\<rparr>, w2)"
    and m: "\<forall>p \<in> set files. fs w2 p = None
              \<and> fs w2 (numbered (dirname p) (N p) 1) = fs ?w1 p"
    by blast
  let ?end = "\<lparr>success = length files, failed = 0, skipped = 0\<rparr>"
  from h l have "process_folder E w root_dir = Some (?end, emit (Print (Totals ?end)) w2)"
    by (simp add: process_folder_def)
  moreover from m have "\<forall>p \<in> set files. fs (emit (Print (Totals ?end)) w2) p = None
      \<and> fs (emit (Print (Totals ?end)) w2) (numbered (dirname p) (N p) 1) = fs w p"
    by (simp add: emit_def)
  ultimately show "\<exists>w'. process_folder E w root_dir
                 = Some (\<lparr>success = length files, failed = 0, skipped = 0\<rparr>, w')
            \<and> (\<forall>p \<in> set files. fs w' p = None
                  \<and> fs w' (numbered (dirname p) (N p) 1) = fs w p)"
    by blast
qed

text \<open>
  Two files named after their titles \<open>A Study of Things\<close> and \<open>Notes on Renaming\<close>:
  both get the suffix \<open>_1\<close> when the batch runs over their directory.
\<close>

theorem rename_to_own_name_witness:
  "rename_pdf_file shelf_env shelf_world (ustr ''/d/A_Study_of_Things.pdf'')
       (ustr ''A_Study_of_Things'')
     = Some (True, shelf_world\<lparr>fs := (fs shelf_world)(ustr ''/d/A_Study_of_Things.pdf'' := None,
                      ustr ''/d/A_Study_of_Things_1.pdf'' \<mapsto> File [1])\<rparr>)
   \<and> (\<exists>w'. process_folder shelf_env shelf_world (ustr ''/d'')
              = Some (\<lparr>success = 2, failed = 0, skipped = 0\<rparr>, w')
         \<and> fs w' (ustr ''/d/A_Study_of_Things.pdf'') = None
         \<and> fs w' (ustr ''/d/A_Study_of_Things_1.pdf'') = Some (File [1])
         \<and> fs w' (ustr ''/d/Notes_on_Renaming.pdf'') = None
         \<and> fs w' (ustr ''/d/Notes_on_Renaming_1.pdf'') = Some (File [2]))"
proof -
  let ?a = "ustr ''/d/A_Study_of_Things.pdf''"
  let ?b = "ustr ''/d/Notes_on_Renaming.pdf''"
  let ?T = "\<lambda>p. if p = ?a then ustr ''A Study of Things'' else ustr ''Notes on Renaming''"
  let ?N = "\<lambda>p. if p = ?a then ustr ''A_Study_of_Things'' else ustr ''Notes_on_Renaming''"
  have ne: "?b \<noteq> ?a" by (simp add: ustr_def)
  have cp: "collect_pdfs shelf_env shelf_world (ustr ''/d'') = [?a, ?b]"
    by (simp add: collect_pdfs_def os_walk_def isdir_def shelf_env_def shelf_world_def
        quiet_env_def ascii_tables_def ascii_lower_chr_def ascii_upper_def endswith_def
        path_join_def startswith_def ustr_def)
  have sta: "stripped_lines ascii_tables (ustr ''A Study of Things'') = [ustr ''A Study of Things'']"
    by code_simp
  have sla: "scan_lines ascii_tables [ustr ''A Study of Things'']
      = Some (ustr ''A Study of Things'')"
    by (simp add: str_isdigit_def header_footer_def ustr_def ascii_tables_def
        ascii_lower_chr_def ascii_upper_def)
  have ta: "title_of_file shelf_env ?a = Inr (Some (ustr ''A Study of Things''))"
    by (simp add: title_of_file_def shelf_env_def quiet_env_def titled_doc_def page_title_def
        sta sla del: scan_lines.simps)
  have stb: "stripped_lines ascii_tables (ustr ''Notes on Renaming'') = [ustr ''Notes on Renaming'']"
    by code_simp
  have slb: "scan_lines ascii_tables [ustr ''Notes on Renaming'']
      = Some (ustr ''Notes on Renaming'')"
    by (simp add: str_isdigit_def header_footer_def ustr_def ascii_tables_def
        ascii_lower_chr_def ascii_upper_def)
  have tb: "title_of_file shelf_env ?b = Inr (Some (ustr ''Notes on Renaming''))"
    by (simp add: title_of_file_def shelf_env_def quiet_env_def titled_doc_def page_title_def
        stb slb ne del: scan_lines.simps)
  have tbl: "tables shelf_env = ascii_tables" by (simp add: shelf_env_def quiet_env_def)
  have sa: "sanitize_filename (tables shelf_env) (ustr ''A Study of Things'')
      = ustr ''A_Study_of_Things''" unfolding tbl by code_simp
  have sb: "sanitize_filename (tables shelf_env) (ustr ''Notes on Renaming'')
      = ustr ''Notes_on_Renaming''" unfolding tbl by code_simp
  have pa: "path_join (dirname ?a) (ustr ''A_Study_of_Things'' @ ustr ''.pdf'') = ?a"
    by code_simp
  have pb: "path_join (dirname ?b) (ustr ''Notes_on_Renaming'' @ ustr ''.pdf'') = ?b"
    by code_simp
  have na: "numbered (dirname ?a) (ustr ''A_Study_of_Things'') 1
      = ustr ''/d/A_Study_of_Things_1.pdf''" by code_simp
  have nb: "numbered (dirname ?b) (ustr ''Notes_on_Renaming'') 1
      = ustr ''/d/Notes_on_Renaming_1.pdf''" by code_simp
  have fa: "fs shelf_world ?a = Some (File [1])" by code_simp
  have fb: "fs shelf_world ?b = Some (File [2])" by code_simp
  have ea: "\<not> exists shelf_world (ustr ''/d/A_Study_of_Things_1.pdf'')" by code_simp
  have eb: "\<not> exists shelf_world (ustr ''/d/Notes_on_Renaming_1.pdf'')" by code_simp
  have rf: "rename_fault shelf_env p q = None" for p q
    by (simp add: shelf_env_def quiet_env_def)
  have nil: "ustr ''A Study of Things'' \<noteq> [] \<and> ustr ''Notes on Renaming'' \<noteq> []
      \<and> ustr ''A_Study_of_Things'' \<noteq> [] \<and> ustr ''Notes_on_Renaming'' \<noteq> []"
    by (simp add: ustr_def)
  have one: "path_join (dirname ?a) (ustr ''A_Study_of_Things'' @ ustr ''.pdf'') = ?a
      \<and> fs shelf_world ?a = Some (File [1])
      \<and> \<not> exists shelf_world (numbered (dirname ?a) (ustr ''A_Study_of_Things'') 1)
      \<and> rename_fault shelf_env ?a (numbered (dirname ?a) (ustr ''A_Study_of_Things'') 1) = None"
    unfolding na using pa fa ea rf by simp
  have all: "collect_pdfs shelf_env shelf_world (ustr ''/d'') = [?a, ?b] \<and> distinct [?a, ?b]
      \<and> (\<forall>p \<in> set [?a, ?b].
            title_of_file shelf_env p = Inr (Some (?T p)) \<and> ?T p \<noteq> []
            \<and> sanitize_filename (tables shelf_env) (?T p) = ?N p \<and> ?N p \<noteq> []
            \<and> path_join (dirname p) (?N p @ ustr ''.pdf'') = p
            \<and> fs shelf_world p \<noteq> None
            \<and> \<not> exists shelf_world (numbered (dirname p) (?N p) 1)
            \<and> rename_fault shelf_env p (numbered (dirname p) (?N p) 1) = None)"
    using cp ne ta tb sa sb pa pb fa fb ea eb rf nil na nb
    by (simp del: One_nat_def)
  from rename_to_own_name [where pdf_path = ?a and new_name = "ustr ''A_Study_of_Things''"
      and w = shelf_world and n = "File [1]" and E = shelf_env and root_dir = "ustr ''/d''"
      and files = "[?a, ?b]" and T = ?T and N = ?N] one all
  have "rename_pdf_file shelf_env shelf_world ?a (ustr ''A_Study_of_Things'')
      = Some (True, shelf_world\<lparr>fs := (fs shelf_world)(?a := None,
            numbered (dirname ?a) (ustr ''A_Study_of_Things'') 1 \<mapsto> File [1])\<rparr>)"
    and "\<exists>w'. process_folder shelf_env shelf_world (ustr ''/d'')
              = Some (\<lparr>success = length [?a, ?b], failed = 0, skipped = 0\<rparr>, w')
         \<and> (\<forall>p \<in> set [?a, ?b]. fs w' p = None
               \<and> fs w' (numbered (dirname p) (?N p) 1) = fs shelf_world p)"
    by blast+
  then show ?thesis using ne fa fb na nb by (simp del: One_nat_def add: numeral_2_eq_2)
qed

section \<open>Properties of \<open>process_single_file\<close>\<close>

lemma trace_emit [simp]: "trace (emit ev w) = trace w @ [ev]"
  by (simp add: emit_def)

lemma fs_parse_pdf [simp]: "fs (snd (parse_pdf E w p)) = fs w"
  by (simp add: parse_pdf_def Let_def split: sum.splits)

lemma fs_summarize_text [simp]: "fs (snd (summarize_text E w t)) = fs w"
  by (simp add: summarize_text_def Let_def split: http_result.splits sum.splits)

lemma f_write_fs:
  "f_write E p k v w = Inr w' \<Longrightarrow> \<exists>c. fs w' = (fs w)(p \<mapsto> File c)"
  by (auto simp: f_write_def split: json.splits option.splits)

lemma write_all_fs:
  "write_all E p k vs w = (r, w') \<Longrightarrow> fs w p = Some (File c)
     \<Longrightarrow> \<exists>c'. fs w' = (fs w)(p \<mapsto> File c')"
proof (induction vs arbitrary: k w c)
  case Nil
  then have "w' = w" and "(fs w)(p \<mapsto> File c) = fs w" by (simp_all add: map_upd_triv)
  then show ?case by metis
next
  case (Cons v vs)
  show ?case
  proof (cases "f_write E p k v w")
    case (Inl e)
    with Cons.prems have "w' = w" and "(fs w)(p \<mapsto> File c) = fs w"
      by (simp_all add: map_upd_triv)
    then show ?thesis by metis
  next
    case (Inr w1)
    from f_write_fs [OF Inr] obtain c1 where c1: "fs w1 = (fs w)(p \<mapsto> File c1)" by blast
    from Cons.prems Inr have "write_all E p (Suc k) vs w1 = (r, w')" by simp
    moreover from c1 have "fs w1 p = Some (File c1)" by simp
    ultimately have "\<exists>c'. fs w' = (fs w1)(p \<mapsto> File c')" by (rule Cons.IH)
    then obtain c' where "fs w' = (fs w1)(p \<mapsto> File c')" ..
    with c1 have "fs w' = (fs w)(p \<mapsto> File c')" by simp
    then show ?thesis ..
  qed
qed

lemma write_file_fs:
  assumes "write_file E w p vs = (r, w')"
  shows "fs w' = fs w \<and> r \<noteq> None
       \<or> (\<exists>c. open_fault E p = None \<and> fs w' = (fs w)(p \<mapsto> File c))"
proof (cases "open_w E w p")
  case (Inl e)
  with assms have "w' = w" and "r = Some e" by (simp_all add: write_file_def)
  then show ?thesis by simp
next
  case (Inr w1)
  then have o: "open_fault E p = None" and f: "fs w1 = (fs w)(p \<mapsto> File [])"
    by (auto simp: open_w_def split: if_splits option.splits)
  from assms Inr have "write_all E p 0 vs w1 = (r, w')" by (simp add: write_file_def)
  moreover from f have "fs w1 p = Some (File [])" by simp
  ultimately have "\<exists>c'. fs w' = (fs w1)(p \<mapsto> File c')" by (rule write_all_fs)
  then obtain c' where "fs w' = (fs w1)(p \<mapsto> File c')" ..
  with f have "fs w' = (fs w)(p \<mapsto> File c')" by simp
  with o show ?thesis by blast
qed

lemma process_single_file_skips:
  "exists w (md_path_of p) \<Longrightarrow> process_single_file E w p = (Skipped, w)"
  by (simp add: process_single_file_def)

lemma process_single_file_keeps:
  assumes "process_single_file E w p = (r, w')" and "exists w m"
  shows "fs w' m = fs w m"
proof (cases "exists w (md_path_of p)")
  case True
  with assms show ?thesis by (simp add: process_single_file_def)
next
  case False
  with assms(2) have ne: "m \<noteq> md_path_of p" by auto
  obtain t w1 where pp: "parse_pdf E w p = (t, w1)" by (cases "parse_pdf E w p")
  then have f1: "fs w1 = fs w" using fs_parse_pdf [of E w p] by simp
  show ?thesis
  proof (cases t)
    case None
    with assms(1) False pp f1 show ?thesis by (simp add: process_single_file_def)
  next
    case (Some pdf_text)
    obtain s w2 where st: "summarize_text E w1 pdf_text = (s, w2)"
      by (cases "summarize_text E w1 pdf_text")
    then have f2: "fs w2 = fs w" using fs_summarize_text [of E w1 pdf_text] f1 by simp
    obtain r3 w3 where wf: "write_file E w2 (md_path_of p) (summary_header p @ [s]) = (r3, w3)"
      by (cases "write_file E w2 (md_path_of p) (summary_header p @ [s])")
    from write_file_fs [OF wf] ne f2 have f3: "fs w3 m = fs w m" by auto
    from assms(1) False pp Some st wf f1 f2 f3 show ?thesis
      by (auto simp: process_single_file_def Let_def split: if_splits option.splits)
  qed
qed

lemma batch_loop_keeps:
  "exists w m \<Longrightarrow> fs (snd (batch_loop E files (st, w))) m = fs w m"
proof (induction files arbitrary: st w)
  case Nil
  then show ?case by simp
next
  case (Cons p files)
  obtain r w' where ps: "process_single_file E w p = (r, w')"
    by (cases "process_single_file E w p")
  from process_single_file_keeps [OF ps Cons.prems] have k: "fs w' m = fs w m" .
  with Cons.prems have "exists w' m" by (simp add: exists_def)
  from Cons.IH [OF this, of "bump r st"] ps k show ?case by simp
qed

lemma batch_loop_append:
  "batch_loop E (xs @ ys) sw = batch_loop E ys (batch_loop E xs sw)"
proof (induction xs arbitrary: sw)
  case (Cons p xs)
  obtain st w where sw: "sw = (st, w)" by (cases sw)
  show ?case unfolding sw by (simp add: Cons.IH split: prod.splits)
qed simp

lemma batch_loop_all_skipped:
  "\<forall>q \<in> set files. exists w (md_path_of q)
     \<Longrightarrow> batch_loop E files (st, w) = (st\<lparr>skipped := skipped st + length files\<rparr>, w)"
proof (induction files arbitrary: st)
  case (Cons p files)
  then show ?case by (simp add: process_single_file_skips bump_def)
qed simp

text \<open>
  Claim C1. When the summary \<open>.md\<close> of a PDF exists, \<open>process_single_file\<close> returns
  \<open>Skipped\<close> and leaves the world as it was: nothing is added to the trace (no
  \<open>fitz.open\<close>, no request) and no file changes. In a batch the turn of such a file, at
  any position, is this skip; the summary stays what it was through the whole run of
  \<open>batch_process_pdfs\<close>, whatever the other files do; and a run over files that all
  have their summary counts every one as skipped and only prints the two reports.
\<close>

theorem skips_existing_summary:
  assumes "exists w (md_path_of pdf_path)"
  shows "process_single_file E w pdf_path = (Skipped, w)
     \<and> batch_loop E (before @ pdf_path # after) (st, w)
         = (case batch_loop E before (st, w) of
              (st', w') \<Rightarrow> batch_loop E after (bump Skipped st', w'))
     \<and> fs (snd (batch_process_pdfs E w root_dir)) (md_path_of pdf_path)
          = fs w (md_path_of pdf_path)
     \<and> ((\<forall>q \<in> set (collect_pdfs E w root_dir). exists w (md_path_of q)) \<longrightarrow>
          batch_process_pdfs E w root_dir
            = (\<lparr>success = 0, failed = 0, skipped = length (collect_pdfs E w root_dir)\<rparr>,
               w\<lparr>trace := trace w @
                 [Print (Found (length (collect_pdfs E w root_dir))),
                  Print (Totals \<lparr>success = 0, failed = 0,
                                 skipped = length (collect_pdfs E w root_dir)\<rparr>)]\<rparr>))"
proof -
  let ?fs = "collect_pdfs E w root_dir"
  let ?w1 = "emit (Print (Found (length ?fs))) w"
  have one: "process_single_file E w pdf_path = (Skipped, w)"
    using assms by (rule process_single_file_skips)
  have two: "batch_loop E (before @ pdf_path # after) (st, w)
         = (case batch_loop E before (st, w) of
              (st', w') \<Rightarrow> batch_loop E after (bump Skipped st', w'))"
  proof -
    obtain st' w' where b: "batch_loop E before (st, w) = (st', w')"
      by (cases "batch_loop E before (st, w)")
    from batch_loop_keeps [OF assms, of E before st] b assms
    have "exists w' (md_path_of pdf_path)" by (simp add: exists_def)
    then have "process_single_file E w' pdf_path = (Skipped, w')"
      by (rule process_single_file_skips)
    with b show ?thesis by (simp add: batch_loop_append)
  qed
  have e1: "exists ?w1 (md_path_of pdf_path)" using assms by simp
  have "fs (snd (batch_process_pdfs E w root_dir)) (md_path_of pdf_path)
          = fs (snd (batch_loop E ?fs (\<lparr>success = 0, failed = 0, skipped = 0\<rparr>, ?w1)))
              (md_path_of pdf_path)"
    by (simp add: batch_process_pdfs_def Let_def split: prod.splits)
  with batch_loop_keeps [OF e1] have three:
    "fs (snd (batch_process_pdfs E w root_dir)) (md_path_of pdf_path)
       = fs w (md_path_of pdf_path)" by simp
  have four: "batch_process_pdfs E w root_dir
            = (\<lparr>success = 0, failed = 0, skipped = length ?fs\<rparr>,
               w\<lparr>trace := trace w @
                 [Print (Found (length ?fs)),
                  Print (Totals \<lparr>success = 0, failed = 0, skipped = length ?fs\<rparr>)]\<rparr>)"
    if "\<forall>q \<in> set ?fs. exists w (md_path_of q)"
  proof -
    from that have "\<forall>q \<in> set ?fs. exists ?w1 (md_path_of q)" by simp
    from batch_loop_all_skipped [OF this]
    show ?thesis by (simp add: batch_process_pdfs_def emit_def Let_def)
  qed
  from one two three four show ?thesis by blast
qed

text \<open>A run over \<open>/d\<close>, where \<open>a.md\<close> holds the text \<open>old\<close>.\<close>

theorem skips_existing_summary_witness:
  "process_single_file (paper_env TransportError) summarized_world (ustr ''/d/a.pdf'')
     = (Skipped, summarized_world)
   \<and> batch_process_pdfs (paper_env TransportError) summarized_world (ustr ''/d'')
     = (\<lparr>success = 0, failed = 0, skipped = 1\<rparr>,
        summarized_world\<lparr>trace :=
          [Print (Found 1), Print (Totals \<lparr>success = 0, failed = 0, skipped = 1\<rparr>)]\<rparr>)
   \<and> fs (snd (batch_process_pdfs (paper_env TransportError) summarized_world (ustr ''/d'')))
        (ustr ''/d/a.md'') = Some (File (ustr ''old''))"
proof -
  let ?E = "paper_env TransportError"
  let ?a = "ustr ''/d/a.pdf''"
  have md: "md_path_of ?a = ustr ''/d/a.md''" by code_simp
  have f: "fs summarized_world (ustr ''/d/a.md'') = Some (File (ustr ''old''))" by code_simp
  have ex: "exists summarized_world (md_path_of ?a)" unfolding md by code_simp
  have cp: "collect_pdfs ?E summarized_world (ustr ''/d'') = [?a]"
    by (simp add: collect_pdfs_def os_walk_def isdir_def paper_env_def summarized_world_def
        quiet_env_def ascii_tables_def ascii_lower_chr_def ascii_upper_def endswith_def
        path_join_def startswith_def ustr_def)
  have tr: "trace summarized_world = []" by (simp add: summarized_world_def)
  have all: "\<forall>q \<in> set (collect_pdfs ?E summarized_world (ustr ''/d'')).
      exists summarized_world (md_path_of q)" unfolding cp using ex by simp
  from skips_existing_summary [OF ex, of ?E "[]" "[]" "\<lparr>success = 0, failed = 0, skipped = 0\<rparr>"
      "ustr ''/d''"] all
  show ?thesis unfolding cp md by (simp add: tr f)
qed

lemma process_single_file_cases:
  assumes "process_single_file E w p = (r, w')"
  shows "(r = Skipped \<and> w' = w \<and> exists w (md_path_of p))
     \<or> (r = Failed \<and> fs w' = fs w)
     \<or> (\<exists>x w3 c. \<not> exists w (md_path_of p) \<and> open_fault E (md_path_of p) = None
            \<and> fs w3 = (fs w)(md_path_of p \<mapsto> File c)
            \<and> (case x of None \<Rightarrow> r = Success \<and> w' = w3
                | Some e \<Rightarrow> r = Failed
                    \<and> w' = emit (Print (WriteFailed (md_path_of p) e)) w3))"
proof (cases "exists w (md_path_of p)")
  case True
  with assms show ?thesis by (simp add: process_single_file_def)
next
  case False
  obtain t w1 where pp: "parse_pdf E w p = (t, w1)" by (cases "parse_pdf E w p")
  then have f1: "fs w1 = fs w" using fs_parse_pdf [of E w p] by simp
  show ?thesis
  proof (cases "t = None \<or> t = Some []")
    case True
    with assms False pp f1 show ?thesis by (auto simp: process_single_file_def)
  next
    case nt: False
    then obtain pdf_text where t: "t = Some pdf_text" and ne: "pdf_text \<noteq> []" by auto
    obtain s w2 where st: "summarize_text E w1 pdf_text = (s, w2)"
      by (cases "summarize_text E w1 pdf_text")
    then have f2: "fs w2 = fs w" using fs_summarize_text [of E w1 pdf_text] f1 by simp
    show ?thesis
    proof (cases "truthy s")
      case False
      with assms \<open>\<not> exists w (md_path_of p)\<close> pp t ne st f2 show ?thesis
        by (simp add: process_single_file_def)
    next
      case True
      obtain x w3 where wf:
        "write_file E w2 (md_path_of p) (summary_header p @ [s]) = (x, w3)"
        by (cases "write_file E w2 (md_path_of p) (summary_header p @ [s])")
      from assms \<open>\<not> exists w (md_path_of p)\<close> pp t ne st True wf
      have res: "case x of None \<Rightarrow> r = Success \<and> w' = w3
                | Some e \<Rightarrow> r = Failed
                    \<and> w' = emit (Print (WriteFailed (md_path_of p) e)) w3"
        by (auto simp: process_single_file_def split: option.splits)
      from write_file_fs [OF wf] consider
          (closed) "fs w3 = fs w2" "x \<noteq> None"
        | (opened) c where "open_fault E (md_path_of p) = None"
            "fs w3 = (fs w2)(md_path_of p \<mapsto> File c)" by blast
      then show ?thesis
      proof cases
        case closed
        with res f2 show ?thesis by (auto split: option.splits)
      next
        case opened
        with res f2 \<open>\<not> exists w (md_path_of p)\<close> show ?thesis by auto
      qed
    qed
  qed
qed

text \<open>
  Claim C2, as amended. When \<open>process_single_file\<close> returns \<open>Failed\<close>, either no file
  has changed, or the failure is a write failure after the output file was opened:
  \<open>open\<close> did not fail, a later \<open>f.write\<close> raised, the message printed last is the write
  failure, and the only change is that the derived \<open>.md\<close> path now holds a file. So the
  derived \<open>.md\<close> exists after the call only if the outcome is \<open>Success\<close>, or it existed
  before, or such a write failure occurred. The other failures change no file: a parse
  failure or an empty extraction, an API failure (a falsy result of \<open>summarize_text\<close>),
  and a failure to open the output file all give \<open>Failed\<close> with the files as they were.
\<close>

theorem failed_partial_only_after_open:
  assumes "process_single_file E w p = (r, w')"
  shows "(r = Failed \<longrightarrow> fs w' = fs w
            \<or> (\<exists>e c. last (trace w') = Print (WriteFailed (md_path_of p) e)
                  \<and> open_fault E (md_path_of p) = None
                  \<and> fs w' = (fs w)(md_path_of p \<mapsto> File c)))
     \<and> (exists w' (md_path_of p) \<longrightarrow> r = Success \<or> exists w (md_path_of p)
            \<or> (\<exists>e. r = Failed \<and> last (trace w') = Print (WriteFailed (md_path_of p) e)))
     \<and> (\<not> exists w (md_path_of p)
          \<and> (fst (parse_pdf E w p) = None \<or> fst (parse_pdf E w p) = Some [])
          \<longrightarrow> r = Failed \<and> fs w' = fs w)
     \<and> (\<not> exists w (md_path_of p)
          \<and> (\<exists>t w1. parse_pdf E w p = (Some t, w1) \<and> t \<noteq> []
                 \<and> \<not> truthy (fst (summarize_text E w1 t)))
          \<longrightarrow> r = Failed \<and> fs w' = fs w)
     \<and> (\<not> exists w (md_path_of p) \<and> open_fault E (md_path_of p) \<noteq> None
          \<longrightarrow> r = Failed \<and> fs w' = fs w)"
proof -
  note c = process_single_file_cases [OF assms]
  have one: "r = Failed \<longrightarrow> fs w' = fs w
            \<or> (\<exists>e c. last (trace w') = Print (WriteFailed (md_path_of p) e)
                  \<and> open_fault E (md_path_of p) = None
                  \<and> fs w' = (fs w)(md_path_of p \<mapsto> File c))"
    using c by (auto split: option.splits)
  have two: "exists w' (md_path_of p) \<longrightarrow> r = Success \<or> exists w (md_path_of p)
            \<or> (\<exists>e. r = Failed \<and> last (trace w') = Print (WriteFailed (md_path_of p) e))"
    using c by (auto simp: exists_def split: option.splits)
  have three: "r = Failed \<and> fs w' = fs w"
    if "\<not> exists w (md_path_of p)"
       "fst (parse_pdf E w p) = None \<or> fst (parse_pdf E w p) = Some []"
  proof -
    obtain t w1 where pp: "parse_pdf E w p = (t, w1)" by (cases "parse_pdf E w p")
    with that(2) have "t = None \<or> t = Some []" by simp
    moreover have "fs w1 = fs w" using fs_parse_pdf [of E w p] pp by simp
    ultimately show ?thesis using assms that(1) pp
      by (auto simp: process_single_file_def)
  qed
  have four: "r = Failed \<and> fs w' = fs w"
    if "\<not> exists w (md_path_of p)" "parse_pdf E w p = (Some t, w1)" "t \<noteq> []"
       "\<not> truthy (fst (summarize_text E w1 t))" for t w1
  proof -
    obtain s w2 where st: "summarize_text E w1 t = (s, w2)"
      by (cases "summarize_text E w1 t")
    have "fs w1 = fs w" using fs_parse_pdf [of E w p] that(2) by simp
    then have "fs w2 = fs w" using fs_summarize_text [of E w1 t] st by simp
    with assms that st show ?thesis by (simp add: process_single_file_def)
  qed
  have five: "r = Failed \<and> fs w' = fs w"
    if "\<not> exists w (md_path_of p)" "open_fault E (md_path_of p) \<noteq> None"
    using c that by (auto split: option.splits)
  from one two three four five show ?thesis by blast
qed

lemma md_path_of_a: "md_path_of (ustr ''/d/a.pdf'') = ustr ''/d/a.md''"
  by code_simp

lemma basename_a: "basename (ustr ''/d/a.pdf'') = ustr ''a.pdf''"
  by code_simp

lemma paper_world_no_md: "fs paper_world (ustr ''/d/a.md'') = None"
  by code_simp

lemma parse_pdf_titled_doc:
  "fitz_open E p = titled_doc t \<Longrightarrow> parse_pdf E w p = (Some t, emit (FitzOpen p) w)"
  by (simp add: parse_pdf_def titled_doc_def)

lemma reply_content_chat_reply: "reply_content (chat_reply c) = Inr c"
  by (simp add: reply_content_def chat_reply_def ustr_def)

lemma summarize_text_chat_reply:
  "requests_post E API_URL (build_prompt t) = Response status (Inr (chat_reply c))
     \<Longrightarrow> summarize_text E w t = (c, emit (HttpPost API_URL (build_prompt t)) w)"
  by (simp add: summarize_text_def reply_content_chat_reply Let_def)

text \<open>
  The amended claim on four runs over \<open>a.pdf\<close>: on a disk where the third write raises
  (the outcome is \<open>Failed\<close> and \<open>a.md\<close>, absent before, is left behind), with a PDF that
  cannot be opened, with a network that is down, and with an output file that cannot be
  opened (each \<open>Failed\<close>, with the files as they were).
\<close>

theorem failed_partial_only_after_open_witness:
  "(fst (process_single_file full_disk_env paper_world (ustr ''/d/a.pdf'')) = Failed
    \<and> \<not> exists paper_world (md_path_of (ustr ''/d/a.pdf''))
    \<and> exists (snd (process_single_file full_disk_env paper_world (ustr ''/d/a.pdf'')))
         (md_path_of (ustr ''/d/a.pdf''))
    \<and> (\<exists>e c. last (trace (snd (process_single_file full_disk_env paper_world
                                    (ustr ''/d/a.pdf''))))
                 = Print (WriteFailed (md_path_of (ustr ''/d/a.pdf'')) e)
           \<and> open_fault full_disk_env (md_path_of (ustr ''/d/a.pdf'')) = None
           \<and> fs (snd (process_single_file full_disk_env paper_world (ustr ''/d/a.pdf'')))
               = (fs paper_world)(md_path_of (ustr ''/d/a.pdf'') \<mapsto> File c)))
   \<and> (fst (process_single_file (quiet_env (\<lambda>p. Inl RuntimeError)) paper_world
              (ustr ''/d/a.pdf'')) = Failed
    \<and> fs (snd (process_single_file (quiet_env (\<lambda>p. Inl RuntimeError)) paper_world
              (ustr ''/d/a.pdf''))) = fs paper_world)
   \<and> (fst (process_single_file (paper_env TransportError) paper_world (ustr ''/d/a.pdf''))
        = Failed
    \<and> fs (snd (process_single_file (paper_env TransportError) paper_world
              (ustr ''/d/a.pdf''))) = fs paper_world)
   \<and> (fst (process_single_file locked_env paper_world (ustr ''/d/a.pdf'')) = Failed
    \<and> fs (snd (process_single_file locked_env paper_world (ustr ''/d/a.pdf'')))
        = fs paper_world)"
proof -
  let ?E = "full_disk_env"
  let ?a = "ustr ''/d/a.pdf''"
  let ?r = "process_single_file ?E paper_world ?a"
  have ne: "ustr ''Some text'' \<noteq> []" by (simp add: ustr_def)
  have fo: "fitz_open ?E ?a = titled_doc (ustr ''Some text'')"
    by (simp add: full_disk_env_def paper_env_def quiet_env_def)
  have rp: "requests_post ?E API_URL (build_prompt (ustr ''Some text''))
      = Response 200 (Inr (chat_reply (JStr (ustr ''A summary''))))"
    by (simp add: full_disk_env_def paper_env_def)
  have "of": "open_fault ?E p = None" for p
    by (simp add: full_disk_env_def paper_env_def quiet_env_def)
  have wf: "write_fault ?E p k = (if k = 2 then Some OSError else None)" for p k
    by (simp add: full_disk_env_def)
  have ns: "ustr ''A summary'' \<noteq> []" by (simp add: ustr_def)
  have v: "?r = (Failed, paper_world\<lparr> fs := (fs paper_world)(ustr ''/d/a.md'' \<mapsto>
           File ([35, 32, 0x6587, 0x732E, 0x603B, 0x7ED3, 10, 10]
              @ [42, 42, 0x6E90, 0x6587, 0x4EF6, 42, 42, 58, 32, 96] @ ustr ''a.pdf''
              @ [96, 10, 10])),
         trace := trace paper_world @ [FitzOpen ?a,
                  HttpPost API_URL (build_prompt (ustr ''Some text'')),
                  Print (WriteFailed (ustr ''/d/a.md'') OSError)] \<rparr>)"
    by (simp add: process_single_file_def md_path_of_a basename_a exists_def paper_world_no_md
        parse_pdf_titled_doc [OF fo] summarize_text_chat_reply [OF rp] ne write_file_def
        open_w_def "of" wf ns summary_header_def f_write_def content_of_def emit_def Let_def)
  have f: "fst ?r = Failed" by (simp add: v)
  have n: "\<not> exists paper_world (md_path_of ?a)"
    by (simp add: md_path_of_a exists_def paper_world_no_md)
  have e: "exists (snd ?r) (md_path_of ?a)" by (simp add: v md_path_of_a exists_def)
  from n e have ch: "fs (snd ?r) \<noteq> fs paper_world" by (auto simp: exists_def)
  have pr: "?r = (fst ?r, snd ?r)" by simp
  from failed_partial_only_after_open [OF pr] f ch
  have "\<exists>e c. last (trace (snd ?r)) = Print (WriteFailed (md_path_of ?a) e)
          \<and> open_fault ?E (md_path_of ?a) = None
          \<and> fs (snd ?r) = (fs paper_world)(md_path_of ?a \<mapsto> File c)"
    by simp
  with f n e have c_write: "fst ?r = Failed \<and> \<not> exists paper_world (md_path_of ?a)
    \<and> exists (snd ?r) (md_path_of ?a)
    \<and> (\<exists>e c. last (trace (snd ?r)) = Print (WriteFailed (md_path_of ?a) e)
           \<and> open_fault ?E (md_path_of ?a) = None
           \<and> fs (snd ?r) = (fs paper_world)(md_path_of ?a \<mapsto> File c))" by blast
  let ?P = "quiet_env (\<lambda>p. Inl RuntimeError)"
  let ?rp = "process_single_file ?P paper_world ?a"
  have "fst (parse_pdf ?P paper_world ?a) = None"
    by (simp add: parse_pdf_def quiet_env_def)
  with failed_partial_only_after_open [of ?P paper_world ?a "fst ?rp" "snd ?rp"] n
  have c_parse: "fst ?rp = Failed \<and> fs (snd ?rp) = fs paper_world" by simp
  let ?T = "paper_env TransportError"
  let ?rt = "process_single_file ?T paper_world ?a"
  have fo': "fitz_open ?T ?a = titled_doc (ustr ''Some text'')"
    by (simp add: paper_env_def quiet_env_def)
  have "\<not> truthy (fst (summarize_text ?T w1 t))" for w1 t
    by (simp add: summarize_text_def paper_env_def Let_def)
  with failed_partial_only_after_open [of ?T paper_world ?a "fst ?rt" "snd ?rt"] n ne
    parse_pdf_titled_doc [OF fo', of paper_world]
  have c_api: "fst ?rt = Failed \<and> fs (snd ?rt) = fs paper_world" by simp
  let ?rl = "process_single_file locked_env paper_world ?a"
  have "open_fault locked_env (md_path_of ?a) \<noteq> None" by (simp add: locked_env_def)
  with failed_partial_only_after_open [of locked_env paper_world ?a "fst ?rl" "snd ?rl"] n
  have c_lock: "fst ?rl = Failed \<and> fs (snd ?rl) = fs paper_world" by simp
  from c_write c_parse c_api c_lock show ?thesis by blast
qed

text \<open>
  Claim C2 as stated fails. The server answers with a \<open>content\<close> that is the JSON array
  \<open>["x"]\<close>: it is truthy, so the output file is opened and the two header lines are
  written; \<open>f.write\<close> then raises \<open>TypeError\<close> on the list. The outcome is \<open>Failed\<close> and
  \<open>a.md\<close>, absent before, holds the header.
\<close>

theorem failed_leaves_partial_file:
  "\<not> exists paper_world (md_path_of (ustr ''/d/a.pdf''))
   \<and> process_single_file
        (paper_env (Response 200 (Inr (chat_reply (JArr [JStr (ustr ''x'')])))))
        paper_world (ustr ''/d/a.pdf'')
     = (Failed, paper_world\<lparr> fs := (fs paper_world)(md_path_of (ustr ''/d/a.pdf'') \<mapsto>
           File ([35, 32, 0x6587, 0x732E, 0x603B, 0x7ED3, 10, 10]
              @ [42, 42, 0x6E90, 0x6587, 0x4EF6, 42, 42, 58, 32, 96] @ ustr ''a.pdf''
              @ [96, 10, 10])),
         trace := [FitzOpen (ustr ''/d/a.pdf''),
                  HttpPost API_URL (build_prompt (ustr ''Some text'')),
                  Print (WriteFailed (md_path_of (ustr ''/d/a.pdf'')) TypeError)] \<rparr>)"
proof -
  let ?E = "paper_env (Response 200 (Inr (chat_reply (JArr [JStr (ustr ''x'')]))))"
  have ne: "ustr ''Some text'' \<noteq> []" by (simp add: ustr_def)
  have fo: "fitz_open ?E (ustr ''/d/a.pdf'') = titled_doc (ustr ''Some text'')"
    by (simp add: paper_env_def quiet_env_def)
  have rp: "requests_post ?E API_URL (build_prompt (ustr ''Some text''))
      = Response 200 (Inr (chat_reply (JArr [JStr (ustr ''x'')])))"
    by (simp add: paper_env_def)
  have "of": "open_fault ?E p = None" for p by (simp add: paper_env_def quiet_env_def)
  have wf: "write_fault ?E p k = None" for p k by (simp add: paper_env_def quiet_env_def)
  have tr: "trace paper_world = []" by (simp add: paper_world_def)
  show ?thesis
    unfolding md_path_of_a
    by (simp add: process_single_file_def md_path_of_a basename_a exists_def paper_world_no_md
        parse_pdf_titled_doc [OF fo] summarize_text_chat_reply [OF rp] ne write_file_def
        open_w_def "of" wf summary_header_def f_write_def content_of_def emit_def tr Let_def)
qed

section \<open>Properties of \<open>summarize_text\<close>\<close>

lemma trace_write_all: "trace (snd (write_all E p k vs w)) = trace w"
proof (induction vs arbitrary: k w)
  case (Cons v vs)
  show ?case
  proof (cases "f_write E p k v w")
    case (Inr w1)
    then have "trace w1 = trace w"
      by (auto simp: f_write_def split: json.splits option.splits)
    with Inr Cons.IH [of "Suc k" w1] show ?thesis by simp
  qed simp
qed simp

lemma trace_write_file: "trace (snd (write_file E w p vs)) = trace w"
proof (cases "open_w E w p")
  case (Inr w1)
  then have "trace w1 = trace w" by (auto simp: open_w_def split: if_splits option.splits)
  with Inr trace_write_all [of E p 0 vs w1] show ?thesis by (simp add: write_file_def)
qed (simp add: write_file_def)

lemma summarize_text_trace:
  "\<exists>msgs. trace (snd (summarize_text E w text))
      = trace w @ HttpPost API_URL (build_prompt text) # map Print msgs"
proof (cases "requests_post E API_URL (build_prompt text)")
  case TransportError
  then have "trace (snd (summarize_text E w text))
      = trace w @ HttpPost API_URL (build_prompt text) # map Print [ApiFailed RequestException]"
    by (simp add: summarize_text_def Let_def)
  then show ?thesis by blast
next
  case (Response status body)
  show ?thesis
  proof (cases "bind_exn body reply_content")
    case (Inl e)
    with Response have "trace (snd (summarize_text E w text))
        = trace w @ HttpPost API_URL (build_prompt text) # map Print [ApiFailed e]"
      by (simp add: summarize_text_def Let_def)
    then show ?thesis by blast
  next
    case (Inr c)
    with Response have "trace (snd (summarize_text E w text))
        = trace w @ HttpPost API_URL (build_prompt text) # map Print []"
      by (simp add: summarize_text_def Let_def)
    then show ?thesis by blast
  qed
qed

lemma process_single_file_trace:
  assumes "\<not> exists w (md_path_of p)" and "parse_pdf E w p = (Some text, w1)"
      and "text \<noteq> []"
  shows "\<exists>evs. trace (snd (process_single_file E w p))
      = trace w1 @ HttpPost API_URL (build_prompt text) # evs"
proof -
  obtain s w2 where st: "summarize_text E w1 text = (s, w2)"
    by (cases "summarize_text E w1 text")
  from summarize_text_trace [of E w1 "text"] st obtain msgs where
    t2: "trace w2 = trace w1 @ HttpPost API_URL (build_prompt text) # map Print msgs" by auto
  show ?thesis
  proof (cases "truthy s")
    case False
    with assms st t2 show ?thesis by (simp add: process_single_file_def)
  next
    case True
    obtain x w3 where wf: "write_file E w2 (md_path_of p) (summary_header p @ [s]) = (x, w3)"
      by (cases "write_file E w2 (md_path_of p) (summary_header p @ [s])")
    have t3: "trace w3 = trace w2" using trace_write_file [of E w2 "md_path_of p" "summary_header p @ [s]"] wf by simp
    from assms st True wf t2 t3 show ?thesis
      by (cases x) (simp_all add: process_single_file_def)
  qed
qed

text \<open>
  Claim C8. For a text longer than 65535 characters, the prompt is the fixed head (the
  template up to \<open>Context:\<close> and the newline after it) followed by exactly the first 65535
  characters of the text, with nothing after them: a proper prefix of the text, unchanged.
  This prompt is what \<open>summarize_text\<close> posts to the API, in its one request, whatever the
  server answers; and it is what \<open>process_single_file\<close> posts, right after parsing, for a
  PDF whose extracted text is such a text.
\<close>

theorem prompt_is_prefix_cut:
  assumes "65535 < length text"
  shows "build_prompt text = PROMPT_HEAD @ take 65535 text
     \<and> length (take 65535 text) = 65535
     \<and> (\<exists>rest. rest \<noteq> [] \<and> text = take 65535 text @ rest)
     \<and> (\<exists>msgs. trace (snd (summarize_text E w text))
           = trace w @ HttpPost API_URL (PROMPT_HEAD @ take 65535 text) # map Print msgs)
     \<and> (\<not> exists w (md_path_of p) \<and> parse_pdf E w p = (Some text, w1) \<longrightarrow>
          (\<exists>evs. trace (snd (process_single_file E w p))
             = trace w1 @ HttpPost API_URL (PROMPT_HEAD @ take 65535 text) # evs))"
proof -
  have b: "build_prompt text = PROMPT_HEAD @ take 65535 text" by (simp add: build_prompt_def)
  have l: "length (take 65535 text) = 65535" using assms by simp
  have "drop 65535 text \<noteq> []" using assms by simp
  moreover have "text = take 65535 text @ drop 65535 text" by simp
  ultimately have r: "\<exists>rest. rest \<noteq> [] \<and> text = take 65535 text @ rest" by blast
  from assms have ne: "text \<noteq> []" by auto
  from b l r summarize_text_trace [of E w "text"] process_single_file_trace [of w p E "text" w1] ne
  show ?thesis by auto
qed

lemma length_long_text: "length long_text = 65536"
  by (simp only: long_text_def length_replicate)

text \<open>A text of 65536 letters \<open>a\<close>, as the argument and as the content of \<open>a.pdf\<close>.\<close>

theorem prompt_is_prefix_cut_witness:
  "65535 < length long_text
   \<and> build_prompt long_text = PROMPT_HEAD @ take 65535 long_text
   \<and> length (take 65535 long_text) = 65535
   \<and> (\<exists>msgs. trace (snd (summarize_text long_doc_env paper_world long_text))
         = trace paper_world
           @ HttpPost API_URL (PROMPT_HEAD @ take 65535 long_text) # map Print msgs)
   \<and> (\<exists>evs. trace (snd (process_single_file long_doc_env paper_world (ustr ''/d/a.pdf'')))
         = trace (emit (FitzOpen (ustr ''/d/a.pdf'')) paper_world)
           @ HttpPost API_URL (PROMPT_HEAD @ take 65535 long_text) # evs)"
proof -
  let ?a = "ustr ''/d/a.pdf''"
  have h: "65535 < length long_text" by (simp add: length_long_text)
  have n: "\<not> exists paper_world (md_path_of ?a)"
    by (simp add: md_path_of_a exists_def paper_world_no_md)
  have fo: "fitz_open long_doc_env ?a = titled_doc long_text"
    by (simp add: long_doc_env_def quiet_env_def)
  note pp = parse_pdf_titled_doc [OF fo, of paper_world]
  from prompt_is_prefix_cut [OF h, of long_doc_env paper_world ?a
      "emit (FitzOpen ?a) paper_world"] h n pp
  show ?thesis by blast
qed

section \<open>Properties of \<open>call_llm_api\<close>\<close>

lemma reply_content_no_choices: "reply_content no_choices = Inl IndexError"
  by (simp add: reply_content_def no_choices_def ustr_def)

lemma reply_content_empty: "reply_content (JObj []) = Inl KeyError"
  by (simp add: reply_content_def)

lemma read_markdown_files_report:
  "read_markdown_files (report_env r) w (ustr ''/m'')
     = ([\<lparr>filename = ustr ''p1.md'', content = c, path = ustr ''/m/p1.md''\<rparr>],
        emit (Print (ReadOk (ustr ''/m/p1.md''))) w)"
  if "fs w (ustr ''/m/p1.md'') = Some (File c)"
proof -
  have pj: "path_join (ustr ''/m'') (ustr ''*.md'') = ustr ''/m/*.md''" by code_simp
  have bn: "basename (ustr ''/m/p1.md'') = ustr ''p1.md''" by code_simp
  have sw: "\<not> startswith (ustr ''p1.md'') (ustr ''research_report'')" by code_simp
  show ?thesis using that
    by (simp add: read_markdown_files_def pj report_env_def quiet_env_def bn sw read_file_def
        Let_def)
qed

text \<open>
  Claim C4 on the code. The server answers with status 200 and the body
  \<open>{"choices": []}\<close>, so \<open>result['choices'][0]\<close> raises \<open>IndexError\<close>. \<open>call_llm_api\<close>
  has clauses for \<open>RequestException\<close> and \<open>KeyError\<close> only: the exception leaves it, and
  leaves \<open>main\<close>. A body without the key \<open>choices\<close> is handled (the empty string, and
  \<open>main\<close> reports a failed analysis), and \<open>summarize_text\<close>, whose clause is
  \<open>except Exception\<close>, gives \<open>None\<close> for the same body. The two differ on the status as
  well: for status 500 with a well-formed body \<open>call_llm_api\<close> gives the empty string,
  \<open>summarize_text\<close>, which never looks at the status, gives the content.
\<close>

theorem call_llm_api_lets_index_error_out:
  "call_llm_api (report_env (Response 200 (Inr no_choices))) report_world
       (ustr ''https://api.siliconflow.cn/v1'') (ustr ''Summarize.'')
     = (Inl IndexError,
        emit (HttpPost (ustr ''https://api.siliconflow.cn/v1'' @ ustr ''/chat/completions'')
                (ustr ''Summarize.'')) report_world)
   \<and> fst (main report_config (report_env (Response 200 (Inr no_choices))) report_world)
     = Some IndexError
   \<and> fst (call_llm_api (report_env (Response 200 (Inr (JObj [])))) report_world
            (ustr ''https://api.siliconflow.cn/v1'') (ustr ''Summarize.''))
     = Inr (JStr [])
   \<and> fst (main report_config (report_env (Response 200 (Inr (JObj [])))) report_world) = None
   \<and> fst (summarize_text (report_env (Response 200 (Inr no_choices))) report_world
            (ustr ''Some text'')) = JNull
   \<and> fst (call_llm_api (report_env (Response 500 (Inr (chat_reply (JStr (ustr ''x''))))))
            report_world (ustr ''https://api.siliconflow.cn/v1'') (ustr ''Summarize.''))
     = Inr (JStr [])
   \<and> fst (summarize_text (report_env (Response 500 (Inr (chat_reply (JStr (ustr ''x''))))))
            report_world (ustr ''Some text'')) = JStr (ustr ''x'')"
proof -
  have a: "call_llm_api (report_env (Response 200 (Inr no_choices))) w b p
     = (Inl IndexError, emit (HttpPost (b @ ustr ''/chat/completions'') p) w)" for w b p
    by (simp add: call_llm_api_def report_env_def reply_content_no_choices Let_def)
  have k: "call_llm_api (report_env (Response 200 (Inr (JObj [])))) w b p
     = (Inr (JStr []), emit (Print (ApiFormatError KeyError))
          (emit (HttpPost (b @ ustr ''/chat/completions'') p) w))" for w b p
    by (simp add: call_llm_api_def report_env_def reply_content_empty Let_def)
  have d: "isdir report_world (ustr ''/m'')" by code_simp
  have key: "ustr ''sk-0123'' \<noteq> ustr ''your-api-key-here''" by (simp add: ustr_def)
  have base: "ustr ''https://api.siliconflow.cn/v1'' \<noteq> []" by (simp add: ustr_def)
  have f: "fs (emit ev report_world) (ustr ''/m/p1.md'') = Some (File (ustr ''A summary''))" for ev
    by (simp add: report_world_def ustr_def)
  have m1: "fst (main report_config (report_env (Response 200 (Inr no_choices))) report_world)
      = Some IndexError"
    by (simp add: main_def report_config_def d key base read_markdown_files_report [OF f]
        analyze_papers_def a Let_def)
  have m2: "fst (main report_config (report_env (Response 200 (Inr (JObj [])))) report_world)
      = None"
    by (simp add: main_def report_config_def d key base read_markdown_files_report [OF f]
        analyze_papers_def k Let_def)
  have s: "fst (summarize_text (report_env (Response 200 (Inr no_choices))) report_world
            (ustr ''Some text'')) = JNull"
    by (simp add: summarize_text_def report_env_def reply_content_no_choices Let_def)
  have c5: "fst (call_llm_api (report_env (Response 500 (Inr (chat_reply (JStr (ustr ''x''))))))
            report_world (ustr ''https://api.siliconflow.cn/v1'') (ustr ''Summarize.''))
     = Inr (JStr [])"
    by (simp add: call_llm_api_def report_env_def Let_def)
  have s5: "fst (summarize_text (report_env (Response 500 (Inr (chat_reply (JStr (ustr ''x''))))))
            report_world (ustr ''Some text'')) = JStr (ustr ''x'')"
    by (simp add: summarize_text_def report_env_def reply_content_chat_reply Let_def)
  from a k m1 m2 s c5 s5 show ?thesis by simp
qed

section \<open>Properties of the three entry points\<close>

lemma reply_content_rejected:
  "reply_content (JObj [(ustr ''message'', v)]) = Inl KeyError"
  by (simp add: reply_content_def ustr_def)

lemma collect_pdfs_missing: "\<not> isdir w d \<Longrightarrow> collect_pdfs E w d = []"
  by (simp add: collect_pdfs_def os_walk_def)

text \<open>
  Claim C3, as amended. No tool raises an error for a root directory that is missing (or
  is no directory). \<open>batch_process_pdfs\<close> and \<open>process_folder\<close> find no file, process
  none, print the count 0 and the three totals 0, and end normally; \<open>main\<close> of the report
  script prints that the directory does not exist and a hint, and returns, before it
  reads a file or sends a request. The summarizer does not look at its API key either:
  when the server rejects the request (status 401, a body without \<open>choices\<close>), the PDF
  has been parsed and the request sent, and the file is counted as failed.
\<close>

theorem missing_directory_is_no_error:
  "(\<not> isdir w d \<longrightarrow>
      batch_process_pdfs E w d
        = (\<lparr>success = 0, failed = 0, skipped = 0\<rparr>,
           w\<lparr>trace := trace w @ [Print (Found 0),
                Print (Totals \<lparr>success = 0, failed = 0, skipped = 0\<rparr>)]\<rparr>)
    \<and> process_folder E w d
        = Some (\<lparr>success = 0, failed = 0, skipped = 0\<rparr>,
           w\<lparr>trace := trace w @ [Print (Found 0),
                Print (Totals \<lparr>success = 0, failed = 0, skipped = 0\<rparr>)]\<rparr>)
    \<and> main (cfg\<lparr>directory := d\<rparr>) E w
        = (None, w\<lparr>trace := trace w @ [Print (DirMissing d), Print FixDirectoryHint]\<rparr>))
   \<and> (\<not> exists w (md_path_of p) \<and> parse_pdf E w p = (Some t, w1) \<and> t \<noteq> []
      \<and> requests_post E API_URL (build_prompt t)
           = Response 401 (Inr (JObj [(ustr ''message'', v)]))
    \<longrightarrow> process_single_file E w p
          = (Failed, w1\<lparr>trace := trace w1 @ [HttpPost API_URL (build_prompt t),
                                             Print (ApiFailed KeyError)]\<rparr>))"
proof (intro conjI impI)
  assume n: "\<not> isdir w d"
  show "batch_process_pdfs E w d
        = (\<lparr>success = 0, failed = 0, skipped = 0\<rparr>,
           w\<lparr>trace := trace w @ [Print (Found 0),
                Print (Totals \<lparr>success = 0, failed = 0, skipped = 0\<rparr>)]\<rparr>)"
    by (simp add: batch_process_pdfs_def collect_pdfs_missing [OF n] emit_def)
  show "process_folder E w d
        = Some (\<lparr>success = 0, failed = 0, skipped = 0\<rparr>,
           w\<lparr>trace := trace w @ [Print (Found 0),
                Print (Totals \<lparr>success = 0, failed = 0, skipped = 0\<rparr>)]\<rparr>)"
    by (simp add: process_folder_def collect_pdfs_missing [OF n] emit_def)
  show "main (cfg\<lparr>directory := d\<rparr>) E w
        = (None, w\<lparr>trace := trace w @ [Print (DirMissing d), Print FixDirectoryHint]\<rparr>)"
    using n by (simp add: main_def emit_def)
next
  assume h: "\<not> exists w (md_path_of p) \<and> parse_pdf E w p = (Some t, w1) \<and> t \<noteq> []
      \<and> requests_post E API_URL (build_prompt t)
           = Response 401 (Inr (JObj [(ustr ''message'', v)]))"
  then have "summarize_text E w1 t
      = (JNull, w1\<lparr>trace := trace w1 @ [HttpPost API_URL (build_prompt t),
                                         Print (ApiFailed KeyError)]\<rparr>)"
    by (simp add: summarize_text_def reply_content_rejected emit_def Let_def)
  with h show "process_single_file E w p
          = (Failed, w1\<lparr>trace := trace w1 @ [HttpPost API_URL (build_prompt t),
                                             Print (ApiFailed KeyError)]\<rparr>)"
    by (simp add: process_single_file_def)
qed

text \<open>
  The amended claim for the missing directory \<open>/missing\<close>, and for \<open>a.pdf\<close> with a server
  that rejects the key.
\<close>

theorem missing_directory_is_no_error_witness:
  "batch_process_pdfs (paper_env rejected) paper_world (ustr ''/missing'')
     = (\<lparr>success = 0, failed = 0, skipped = 0\<rparr>,
        paper_world\<lparr>trace := trace paper_world @ [Print (Found 0),
             Print (Totals \<lparr>success = 0, failed = 0, skipped = 0\<rparr>)]\<rparr>)
   \<and> process_folder (paper_env rejected) paper_world (ustr ''/missing'')
     = Some (\<lparr>success = 0, failed = 0, skipped = 0\<rparr>,
        paper_world\<lparr>trace := trace paper_world @ [Print (Found 0),
             Print (Totals \<lparr>success = 0, failed = 0, skipped = 0\<rparr>)]\<rparr>)
   \<and> main (shipped_config\<lparr>directory := ustr ''/missing''\<rparr>) (paper_env rejected) paper_world
     = (None, paper_world\<lparr>trace := trace paper_world
           @ [Print (DirMissing (ustr ''/missing'')), Print FixDirectoryHint]\<rparr>)
   \<and> process_single_file (paper_env rejected) paper_world (ustr ''/d/a.pdf'')
     = (Failed, (emit (FitzOpen (ustr ''/d/a.pdf'')) paper_world)
          \<lparr>trace := trace (emit (FitzOpen (ustr ''/d/a.pdf'')) paper_world)
             @ [HttpPost API_URL (build_prompt (ustr ''Some text'')),
                Print (ApiFailed KeyError)]\<rparr>)"
proof -
  let ?E = "paper_env rejected"
  let ?a = "ustr ''/d/a.pdf''"
  have nd: "\<not> isdir paper_world (ustr ''/missing'')" by code_simp
  have n: "\<not> exists paper_world (md_path_of ?a)"
    by (simp add: md_path_of_a exists_def paper_world_no_md)
  have ne: "ustr ''Some text'' \<noteq> []" by (simp add: ustr_def)
  have fo: "fitz_open ?E ?a = titled_doc (ustr ''Some text'')"
    by (simp add: paper_env_def quiet_env_def)
  note pp = parse_pdf_titled_doc [OF fo, of paper_world]
  have rp: "requests_post ?E API_URL (build_prompt (ustr ''Some text''))
      = Response 401 (Inr (JObj [(ustr ''message'', JStr (ustr ''Invalid token''))]))"
    by (simp add: paper_env_def rejected_def)
  from missing_directory_is_no_error [of paper_world "ustr ''/missing''" ?E shipped_config
      ?a "ustr ''Some text''" "emit (FitzOpen ?a) paper_world" "JStr (ustr ''Invalid token'')"]
    nd n ne pp rp
  show ?thesis by blast
qed

text \<open>
  Claim C3 as stated fails. Over the missing directory \<open>/missing\<close> the summarizer ends
  normally, and all it prints is the count 0 and the totals: no error is reported. Over
  \<open>/d\<close>, with a server that rejects the key, the run does not stop before the files: it
  opens \<open>a.pdf\<close> and sends the request.
\<close>

theorem missing_directory_reports_nothing:
  "\<not> exists paper_world (ustr ''/missing'')
   \<and> batch_process_pdfs (paper_env rejected) paper_world (ustr ''/missing'')
     = (\<lparr>success = 0, failed = 0, skipped = 0\<rparr>,
        paper_world\<lparr>trace := [Print (Found 0),
             Print (Totals \<lparr>success = 0, failed = 0, skipped = 0\<rparr>)]\<rparr>)
   \<and> batch_process_pdfs (paper_env rejected) paper_world (ustr ''/d'')
     = (\<lparr>success = 0, failed = 1, skipped = 0\<rparr>,
        paper_world\<lparr>trace := [Print (Found 1), FitzOpen (ustr ''/d/a.pdf''),
             HttpPost API_URL (build_prompt (ustr ''Some text'')),
             Print (ApiFailed KeyError),
             Print (Totals \<lparr>success = 0, failed = 1, skipped = 0\<rparr>)]\<rparr>)"
proof -
  let ?E = "paper_env rejected"
  let ?a = "ustr ''/d/a.pdf''"
  have m: "\<not> exists paper_world (ustr ''/missing'')" by code_simp
  then have nd: "\<not> isdir paper_world (ustr ''/missing'')" by (simp add: exists_def isdir_def)
  have tr: "trace paper_world = []" by (simp add: paper_world_def)
  have one: "batch_process_pdfs ?E paper_world (ustr ''/missing'')
     = (\<lparr>success = 0, failed = 0, skipped = 0\<rparr>,
        paper_world\<lparr>trace := [Print (Found 0),
             Print (Totals \<lparr>success = 0, failed = 0, skipped = 0\<rparr>)]\<rparr>)"
    by (simp add: batch_process_pdfs_def collect_pdfs_missing [OF nd] emit_def tr)
  have cp: "collect_pdfs ?E paper_world (ustr ''/d'') = [?a]"
    by (simp add: collect_pdfs_def os_walk_def isdir_def paper_env_def paper_world_def
        quiet_env_def ascii_tables_def ascii_lower_chr_def ascii_upper_def endswith_def
        path_join_def startswith_def ustr_def)
  have ne: "ustr ''Some text'' \<noteq> []" by (simp add: ustr_def)
  have fo: "fitz_open ?E ?a = titled_doc (ustr ''Some text'')"
    by (simp add: paper_env_def quiet_env_def)
  have su: "summarize_text ?E w t
      = (JNull, emit (Print (ApiFailed KeyError)) (emit (HttpPost API_URL (build_prompt t)) w))"
    for w t
    by (simp add: summarize_text_def paper_env_def rejected_def reply_content_rejected Let_def)
  have ps: "process_single_file ?E w ?a
      = (Failed, emit (Print (ApiFailed KeyError))
           (emit (HttpPost API_URL (build_prompt (ustr ''Some text'')))
              (emit (FitzOpen ?a) w)))"
    if "fs w (ustr ''/d/a.md'') = None" for w
    using that
    by (simp add: process_single_file_def md_path_of_a exists_def parse_pdf_titled_doc [OF fo]
        ne su)
  have f: "fs (emit ev paper_world) (ustr ''/d/a.md'') = None" for ev
    by (simp add: paper_world_no_md)
  have two: "batch_process_pdfs ?E paper_world (ustr ''/d'')
     = (\<lparr>success = 0, failed = 1, skipped = 0\<rparr>,
        paper_world\<lparr>trace := [Print (Found 1), FitzOpen ?a,
             HttpPost API_URL (build_prompt (ustr ''Some text'')),
             Print (ApiFailed KeyError),
             Print (Totals \<lparr>success = 0, failed = 1, skipped = 0\<rparr>)]\<rparr>)"
  proof -
    have "batch_process_pdfs ?E paper_world (ustr ''/d'')
      = (\<lparr>success = 0, failed = 1, skipped = 0\<rparr>,
         emit (Print (Totals \<lparr>success = 0, failed = 1, skipped = 0\<rparr>))
           (emit (Print (ApiFailed KeyError))
             (emit (HttpPost API_URL (build_prompt (ustr ''Some text'')))
               (emit (FitzOpen ?a) (emit (Print (Found 1)) paper_world)))))"
      by (simp add: batch_process_pdfs_def cp ps [OF f] bump_def Let_def)
    then show ?thesis by (simp add: emit_def tr)
  qed
  from m one two show ?thesis by blast
qed

end
